(* ===== verification/Prelude.thy ===== *)
theory Prelude
  imports Main "HOL-Library.Word"
begin

text \<open>
  Shared vocabulary of the development. Bytes are \<open>8 word\<close> (the byte strings and
  the 8-bit RGBA channels of \<^verbatim>\<open>src/image_steganography/core.py\<close>); a bit of the
  payload stream is a Python \<open>int\<close> that is 0 or 1; Python exceptions are the
  constructors of \<open>py_error\<close>, and a call that may raise returns \<open>py_error + 'a\<close>.
  The theory also holds the generic list lemmas the components share: grouping a list
  into chunks of fixed size (the reference reading of \<open>_from_bits\<close>), and the
  arithmetic of a bitwise OR of disjoint words (the reading of \<open>(c & ~1) | bit\<close>).
\<close>

unbundle bit_operations_syntax

type_synonym byte = "8 word"

text \<open>
  A Python \<^verbatim>\<open>str\<close> is a sequence of code points; we write it as a list of
  naturals. \<open>SteganographyError\<close> is the domain error of \<^verbatim>\<open>core.py\<close>, the other
  constructors are the built-in exceptions the code can raise (\<open>OSError\<close> stands for
  its subclasses raised by \<open>Image.open\<close>: \<open>IsADirectoryError\<close>, PIL's
  \<open>UnidentifiedImageError\<close>).
\<close>

type_synonym pystr = "nat list"

datatype py_error =
    SteganographyError string
  | ValueError string
  | OverflowError string
  | UnicodeEncodeError
  | OSError string

named_theorems codec_simps "evaluation rules for the concrete scenarios run on the model"

definition binary :: "int list \<Rightarrow> bool" where
  "binary bs \<longleftrightarrow> list_all (\<lambda>b. b = 0 \<or> b = 1) bs"

text \<open>\<open>chunks n xs\<close>: the complete groups of \<open>n\<close> consecutive elements, a trailing
  incomplete group dropped.\<close>

fun chunks :: "nat \<Rightarrow> 'a list \<Rightarrow> 'a list list" where
  "chunks n xs = (if n = 0 \<or> length xs < n then [] else take n xs # chunks n (drop n xs))"

declare chunks.simps [simp del]

subsection \<open>Binary bit lists\<close>

lemma binary_Nil [simp]: "binary []"
  by (simp add: binary_def)

lemma binary_Cons [simp]: "binary (b # bs) \<longleftrightarrow> (b = 0 \<or> b = 1) \<and> binary bs"
  by (simp add: binary_def)

lemma binary_append [simp]: "binary (xs @ ys) \<longleftrightarrow> binary xs \<and> binary ys"
  by (simp add: binary_def)

lemma binary_take [intro]: "binary bs \<Longrightarrow> binary (take n bs)"
  by (auto simp: binary_def list_all_iff dest: in_set_takeD)

lemma binary_drop [intro]: "binary bs \<Longrightarrow> binary (drop n bs)"
  by (auto simp: binary_def list_all_iff dest: in_set_dropD)

lemma binary_concat: "binary (concat bss) \<longleftrightarrow> list_all binary bss"
  by (induction bss) auto

subsection \<open>Chunks\<close>

lemma chunks_short: "length xs < n \<Longrightarrow> chunks n xs = []"
  by (simp add: chunks.simps)

lemma chunks_append_group:
  "0 < n \<Longrightarrow> length xs = n \<Longrightarrow> chunks n (xs @ ys) = xs # chunks n ys"
  by (simp add: chunks.simps [of n "xs @ ys"])

lemma chunks_concat:
  "0 < n \<Longrightarrow> list_all (\<lambda>x. length x = n) xss \<Longrightarrow> chunks n (concat xss @ ys) = xss @ chunks n ys"
  by (induction xss) (auto simp: chunks_append_group)

lemma length_chunks: "0 < n \<Longrightarrow> length (chunks n xs) = length xs div n"
proof (induction n xs rule: chunks.induct)
  case (1 n xs)
  show ?case
  proof (cases "length xs < n")
    case True
    then show ?thesis by (simp add: chunks_short)
  next
    case False
    with "1.prems" have "length (chunks n (drop n xs)) = (length xs - n) div n"
      using "1.IH" by simp
    moreover from False "1.prems" have "(length xs - n) div n + 1 = length xs div n"
      by (simp add: le_div_geq)
    ultimately show ?thesis
      using False "1.prems" by (simp add: chunks.simps [of n xs])
  qed
qed

lemma set_chunks: "g \<in> set (chunks n xs) \<Longrightarrow> set g \<subseteq> set xs"
proof (induction n xs rule: chunks.induct)
  case (1 n xs)
  show ?case
  proof (cases "n = 0 \<or> length xs < n")
    case True
    with "1.prems" show ?thesis by (simp add: chunks.simps [of n xs])
  next
    case False
    with "1.prems" have "g = take n xs \<or> g \<in> set (chunks n (drop n xs))"
      by (simp add: chunks.simps [of n xs])
    then show ?thesis
      using "1.IH" False by (auto dest: in_set_takeD in_set_dropD)
  qed
qed

lemma chunks_take: "0 < n \<Longrightarrow> chunks n (take (n * k) xs) = take k (chunks n xs)"
proof (induction k arbitrary: xs)
  case 0
  then show ?case by (simp add: chunks_short)
next
  case (Suc k)
  show ?case
  proof (cases "length xs < n")
    case True
    then have "length (take (n * Suc k) xs) < n" by simp
    with True show ?thesis by (simp add: chunks_short)
  next
    case False
    then have "take (n * Suc k) xs = take n xs @ take (n * k) (drop n xs)"
      by (simp add: take_add)
    with False Suc show ?thesis
      by (simp add: chunks_append_group chunks.simps [of n xs])
  qed
qed

lemma chunks_drop: "0 < n \<Longrightarrow> chunks n (drop (n * k) xs) = drop k (chunks n xs)"
proof (induction k arbitrary: xs)
  case 0
  then show ?case by simp
next
  case (Suc k)
  show ?case
  proof (cases "length xs < n")
    case True
    then show ?thesis by (simp add: chunks_short)
  next
    case False
    have "drop (n * Suc k) xs = drop (n * k) (drop n xs)"
      by (simp add: add.commute)
    then have "chunks n (drop (n * Suc k) xs) = chunks n (drop (n * k) (drop n xs))"
      by (simp only:)
    also have "\<dots> = drop k (chunks n (drop n xs))"
      using Suc.prems by (rule Suc.IH)
    also have "\<dots> = drop (Suc k) (chunks n xs)"
      using False Suc.prems by (simp add: chunks.simps [of n xs])
    finally show ?thesis .
  qed
qed

lemma list_all_map_length:
  "list_all (\<lambda>row. length row = w) xs = list_all (\<lambda>n. n = w) (map length xs)"
  by (induction xs) auto

lemma map_update_same: "f v = f (xs ! i) \<Longrightarrow> map f (xs[i := v]) = map f xs"
proof (cases "i < length xs")
  case True
  assume "f v = f (xs ! i)"
  with True show ?thesis by (intro nth_equalityI) (auto simp: nth_list_update)
next
  case False
  then show ?thesis by (simp add: list_update_beyond)
qed

lemma chunks_append_dvd:
  "0 < n \<Longrightarrow> length xs = n * k \<Longrightarrow> chunks n (xs @ ys) = chunks n xs @ chunks n ys"
proof (induction k arbitrary: xs)
  case 0
  then show ?case by (simp add: chunks_short)
next
  case (Suc k)
  then have len: "length (take n xs) = n" "length (drop n xs) = n * k" and "\<not> length xs < n"
    by auto
  then have "chunks n xs = take n xs # chunks n (drop n xs)"
    using Suc.prems(1) by (simp add: chunks.simps [of n xs])
  moreover have "chunks n (xs @ ys) = take n xs # chunks n (drop n xs @ ys)"
  proof -
    have "xs @ ys = take n xs @ (drop n xs @ ys)" by simp
    then have "chunks n (xs @ ys) = chunks n (take n xs @ (drop n xs @ ys))" by (rule arg_cong)
    also have "\<dots> = take n xs # chunks n (drop n xs @ ys)"
      by (rule chunks_append_group [OF Suc.prems(1) len(1)])
    finally show ?thesis .
  qed
  ultimately show ?case using Suc.IH [OF Suc.prems(1) len(2)] by simp
qed

lemma chunks_take_any: "0 < n \<Longrightarrow> chunks n (take m xs) = take (m div n) (chunks n xs)"
proof (cases "n * (m div n) \<le> length xs")
  case True
  assume n: "0 < n"
  let ?q = "m div n"
  have "take m xs = take (n * ?q) xs @ take (m mod n) (drop (n * ?q) xs)"
    by (metis take_add div_mult_mod_eq mult.commute)
  moreover have "length (take (m mod n) (drop (n * ?q) xs)) < n"
    using n by (simp add: min_less_iff_disj)
  moreover have "length (take (n * ?q) xs) = n * ?q"
    using True by simp
  ultimately show ?thesis
    using n by (simp add: chunks_append_dvd chunks_short chunks_take)
next
  case False
  assume n: "0 < n"
  then have "n * (m div n) \<le> m" by simp
  with False have "length xs \<le> m" by linarith
  then have "take m xs = xs" by simp
  moreover have "length (chunks n xs) \<le> m div n"
    using n False by (simp add: length_chunks div_le_mono less_imp_le_nat
        div_less_iff_less_mult mult.commute)
  ultimately show ?thesis by simp
qed

subsection \<open>Words\<close>

lemma uint_or_disjoint: "(a::'a::len word) AND b = 0 \<Longrightarrow> uint (a OR b) = uint a + uint b"
proof -
  assume "a AND b = 0"
  then have "uint a AND uint b = 0" by (metis uint_and unsigned_0)
  then have "uint a + uint b = uint a OR uint b" by (rule disjunctive_add_eq_or)
  then show ?thesis by (simp add: uint_or)
qed

lemma uint_and_not_one: "uint ((c::byte) AND NOT 1) = uint c - uint c mod 2"
proof -
  have "(c AND NOT 1) AND (c AND 1) = 0"
    by (simp add: and.assoc and.left_commute)
  then have "uint ((c AND NOT 1) OR (c AND 1)) = uint (c AND NOT 1) + uint (c AND 1)"
    by (rule uint_or_disjoint)
  moreover have "(c AND NOT 1) OR (c AND 1) = c"
    by (simp add: bit.conj_disj_distrib [symmetric])
  moreover have "uint (c AND 1) = uint c mod 2"
    by (simp add: and_one_eq uint_mod)
  ultimately show ?thesis by simp
qed

lemma push_bit_or_binary: "b = 0 \<or> b = 1 \<Longrightarrow> push_bit 1 (a::int) OR b = 2 * a + b"
  by (auto simp: push_bit_eq_mult or_one_eq)

end
