(* ===== verification/Bits.thy ===== *)
theory Bits
  imports Prelude
begin

text \<open>
  The Bit Planner of \<^verbatim>\<open>src/image_steganography/core.py\<close>: the generator
  \<open>_to_bits\<close> (lines 97--100) flattens bytes most significant bit first, and
  \<open>_from_bits\<close> (lines 103--111) regroups bits into bytes, an accumulator \<open>b\<close>
  shifted left once per bit and appended to a \<open>bytearray\<close> after every eighth bit.
  The loop of \<open>_from_bits\<close> is \<open>from_bits_loop\<close>, with the accumulator, the
  1-based index of \<open>enumerate(bits, start=1)\<close> and the output as parameters;
  \<open>bytearray.append\<close> raises \<open>ValueError\<close> for a value outside \<open>range(0, 256)\<close>,
  which is a branch of the model. The reference reading \<open>from_bits_spec\<close> cuts the
  bit list into complete groups of eight and reads each as a binary number; the lemmas
  show that the loop computes it on every list of 0/1 bits (in particular it never
  raises there and drops a trailing incomplete group), and that \<open>_from_bits\<close> inverts
  \<open>_to_bits\<close>.
\<close>

unbundle bit_operations_syntax

definition to_bits_byte :: "byte \<Rightarrow> int list" where
  "to_bits_byte byte = map (\<lambda>i. drop_bit (7 - i) (uint byte) AND 1) [0..<8]"

primrec to_bits :: "byte list \<Rightarrow> int list" where
  "to_bits [] = []"
| "to_bits (byte # data) = to_bits_byte byte @ to_bits data"

fun from_bits_loop :: "int \<Rightarrow> nat \<Rightarrow> int list \<Rightarrow> byte list \<Rightarrow> py_error + byte list" where
  "from_bits_loop b i [] out = Inr out"
| "from_bits_loop b i (bt # bits) out =
     (let b = push_bit 1 b OR bt; i = Suc i in
      if i mod 8 = 0 then
        (if 0 \<le> b \<and> b < 256 then from_bits_loop 0 i bits (out @ [word_of_int b])
         else Inl (ValueError ''byte must be in range(0, 256)''))
      else from_bits_loop b i bits out)"

definition from_bits :: "int list \<Rightarrow> py_error + byte list" where
  "from_bits bits = from_bits_loop 0 0 bits []"

text \<open>The reference reading: a group of bits, most significant first, is a number.\<close>

definition bits_value :: "int list \<Rightarrow> int" where
  "bits_value bs = foldl (\<lambda>acc x. 2 * acc + x) 0 bs"

definition from_bits_spec :: "int list \<Rightarrow> byte list" where
  "from_bits_spec bits = map (\<lambda>g. word_of_int (bits_value g)) (chunks 8 bits)"

subsection \<open>\<open>_to_bits\<close>\<close>

lemma length_to_bits_byte [simp]: "length (to_bits_byte w) = 8"
  by (simp add: to_bits_byte_def)

lemma length_to_bits [simp]: "length (to_bits d) = 8 * length d"
  by (induction d) auto

lemma and_one_binary: "(x::int) AND 1 = 0 \<or> x AND 1 = 1"
  by (simp add: and_one_eq mod2_eq_if)

lemma binary_to_bits_byte [simp]: "binary (to_bits_byte w)"
  by (simp add: to_bits_byte_def binary_def list_all_iff and_one_binary)

lemma binary_to_bits [simp]: "binary (to_bits d)"
  by (induction d) auto

lemma to_bits_append [simp]: "to_bits (xs @ ys) = to_bits xs @ to_bits ys"
  by (induction xs) auto

subsection \<open>The loop of \<open>_from_bits\<close>\<close>

lemma from_bits_loop_partial:
  "i mod 8 + length p < 8 \<Longrightarrow>
   from_bits_loop b i (p @ rest) out =
   from_bits_loop (foldl (\<lambda>a x. push_bit 1 a OR x) b p) (i + length p) rest out"
proof (induction p arbitrary: b i)
  case Nil
  then show ?case by simp
next
  case (Cons x p)
  then have "Suc i mod 8 \<noteq> 0" and "Suc i mod 8 + length p < 8"
    by (simp_all add: mod_Suc)
  with Cons.IH show ?case by (simp add: Let_def)
qed

lemma foldl_push_or_binary:
  "binary p \<Longrightarrow> foldl (\<lambda>a x. push_bit 1 a OR x) b p = foldl (\<lambda>acc x. 2 * acc + x) b p"
proof (induction p arbitrary: b)
  case Nil
  then show ?case by simp
next
  case (Cons x p)
  then have "x = 0 \<or> x = 1" by simp
  then have "push_bit 1 b OR x = 2 * b + x" by (rule push_bit_or_binary)
  with Cons show ?case by simp
qed
lemma foldl_horner_bounds:
  "0 \<le> a \<Longrightarrow> binary p \<Longrightarrow>
   0 \<le> foldl (\<lambda>acc x. 2 * acc + x) a p \<and>
   foldl (\<lambda>acc x. 2 * acc + x) a p < (a + 1) * 2 ^ length p"
proof (induction p arbitrary: a)
  case Nil
  then show ?case by simp
next
  case (Cons x p)
  from Cons.prems have x: "x = 0 \<or> x = 1" and p: "binary p" by simp_all
  have a': "0 \<le> 2 * a + x" using x Cons.prems(1) by auto
  note IH = Cons.IH [OF a' p]
  have "2 * a + x + 1 \<le> 2 * (a + 1)" using x by auto
  then have "(2 * a + x + 1) * 2 ^ length p \<le> (2 * (a + 1)) * 2 ^ length p"
    by (rule mult_right_mono) simp
  also have "\<dots> = (a + 1) * 2 ^ length (x # p)"
    by simp
  finally have le: "(2 * a + x + 1) * 2 ^ length p \<le> (a + 1) * 2 ^ length (x # p)" .
  have "foldl (\<lambda>acc x. 2 * acc + x) (2 * a + x) p < (a + 1) * 2 ^ length (x # p)"
    using IH [THEN conjunct2] le by (rule order_less_le_trans)
  then show ?case using IH by simp
qed

lemma bits_value_bounds: "binary g \<Longrightarrow> 0 \<le> bits_value g \<and> bits_value g < 2 ^ length g"
  using foldl_horner_bounds [of 0 g] by (simp add: bits_value_def)

lemma from_bits_loop_group:
  assumes "i mod 8 = 0" and "length g = 8" and "binary g"
  shows "from_bits_loop 0 i (g @ rest) out =
         from_bits_loop 0 (i + 8) rest (out @ [word_of_int (bits_value g)])"
proof -
  define p x where "p = butlast g" and "x = last g"
  have "g \<noteq> []" using assms(2) by auto
  then have g: "g = p @ [x]" by (simp add: p_def x_def)
  have p: "length p = 7" using assms(2) by (simp add: p_def)
  let ?b = "foldl (\<lambda>a x. push_bit 1 a OR x) 0 p"
  have h1: "from_bits_loop 0 i (p @ (x # rest)) out = from_bits_loop ?b (i + 7) (x # rest) out"
    using assms(1) p by (simp add: from_bits_loop_partial)
  have x: "x = 0 \<or> x = 1" and bp: "binary p" using assms(3) g by simp_all
  from x have "push_bit 1 ?b OR x = 2 * ?b + x" by (rule push_bit_or_binary)
  moreover have "?b = foldl (\<lambda>acc x. 2 * acc + x) 0 p"
    using bp by (rule foldl_push_or_binary)
  ultimately have "push_bit 1 ?b OR x = bits_value g"
    using g by (simp add: bits_value_def)
  moreover have "0 \<le> bits_value g \<and> bits_value g < 256"
    using bits_value_bounds [OF assms(3)] assms(2) by simp
  moreover have "Suc (i + 7) mod 8 = 0" and "Suc (i + 7) = i + 8"
    using assms(1) by (simp_all add: mod_Suc)
  ultimately show ?thesis using g h1 by (simp add: Let_def add.commute)
qed

lemma from_bits_loop_spec:
  "binary bits \<Longrightarrow> i mod 8 = 0 \<Longrightarrow> from_bits_loop 0 i bits out = Inr (out @ from_bits_spec bits)"
proof (induction bits arbitrary: i out rule: length_induct)
  case (1 bits)
  show ?case
  proof (cases "length bits < 8")
    case True
    then have "from_bits_loop 0 i (bits @ []) out =
               from_bits_loop (foldl (\<lambda>a x. push_bit 1 a OR x) 0 bits) (i + length bits) [] out"
      using "1.prems"(2) by (intro from_bits_loop_partial) simp
    with True show ?thesis by (simp add: from_bits_spec_def chunks_short)
  next
    case False
    let ?g = "take 8 bits"
    have "from_bits_loop 0 i (?g @ drop 8 bits) out =
          from_bits_loop 0 (i + 8) (drop 8 bits) (out @ [word_of_int (bits_value ?g)])"
      using False "1.prems" by (intro from_bits_loop_group) auto
    moreover have "from_bits_loop 0 (i + 8) (drop 8 bits) out' =
          Inr (out' @ from_bits_spec (drop 8 bits))" for out'
    proof (rule "1.IH" [rule_format])
      show "length (drop 8 bits) < length bits" using False by simp
      show "binary (drop 8 bits)" using "1.prems"(1) by (rule binary_drop)
      show "(i + 8) mod 8 = 0" using "1.prems"(2) by simp
    qed
    moreover have "from_bits_spec bits = word_of_int (bits_value ?g) # from_bits_spec (drop 8 bits)"
      using False by (simp add: from_bits_spec_def chunks.simps [of 8 bits])
    ultimately show ?thesis by simp
  qed
qed

subsection \<open>\<open>_from_bits\<close> inverts \<open>_to_bits\<close>\<close>

lemma drop_bit_and_one: "drop_bit n (v::int) AND 1 = of_bool (bit v n)"
  by (simp add: and_one_eq bit_iff_odd_drop_bit mod2_eq_if)

lemma horner_msb_first:
  "foldl (\<lambda>acc x. 2 * acc + x) a (map (\<lambda>i. drop_bit (n - 1 - i) v AND 1) [0..<n]) =
   a * 2 ^ n + take_bit n (v::int)"
proof (induction n arbitrary: a)
  case 0
  then show ?case by simp
next
  case (Suc n)
  have "[0..<Suc n] = 0 # map Suc [0..<n]"
    by (simp add: map_Suc_upt upt_conv_Cons)
  then have "map (\<lambda>i. drop_bit (Suc n - 1 - i) v AND 1) [0..<Suc n] =
             of_bool (bit v n) # map (\<lambda>i. drop_bit (n - 1 - i) v AND 1) [0..<n]"
    by (simp add: drop_bit_and_one)
  then show ?case
    using Suc.IH [of "2 * a + of_bool (bit v n)"]
    by (simp add: take_bit_Suc_from_most algebra_simps)
qed

lemma bits_value_to_bits_byte: "bits_value (to_bits_byte w) = uint w"
  using horner_msb_first [of 0 8 "uint w"] uint_lt2p [of w]
  by (simp add: bits_value_def to_bits_byte_def take_bit_int_eq_self_iff uint_lt2p)

lemma chunks_to_bits: "chunks 8 (to_bits d @ rest) = map to_bits_byte d @ chunks 8 rest"
  by (induction d) (simp_all add: chunks_append_group)

lemma from_bits_spec_to_bits_append: "from_bits_spec (to_bits d @ rest) = d @ from_bits_spec rest"
  by (simp add: from_bits_spec_def chunks_to_bits bits_value_to_bits_byte comp_def)

lemma from_bits_spec_take_drop:
  "take k (drop j (from_bits_spec bits)) = from_bits_spec (take (8 * k) (drop (8 * j) bits))"
  by (simp add: from_bits_spec_def chunks_take chunks_drop take_map drop_map)

lemma from_bits_spec_take: "from_bits_spec (take m bits) = take (m div 8) (from_bits_spec bits)"
  by (simp add: from_bits_spec_def chunks_take_any take_map)

lemma length_from_bits_spec: "length (from_bits_spec bits) = length bits div 8"
  by (simp add: from_bits_spec_def length_chunks)

lemma from_bits_binary: "binary bits \<Longrightarrow> from_bits bits = Inr (from_bits_spec bits)"
  by (simp add: from_bits_def from_bits_loop_spec)

lemma from_bits_spec_to_bits: "from_bits_spec (to_bits d) = d"
  using from_bits_spec_to_bits_append [of d "[]"] by (simp add: from_bits_spec_def chunks_short)

lemma from_bits_of_to_bits: "from_bits (to_bits d) = Inr d"
  by (simp add: from_bits_binary from_bits_spec_to_bits)

lemma bits_value_zeros: "list_all (\<lambda>b. b = 0) g \<Longrightarrow> foldl (\<lambda>acc x. 2 * acc + x) (0::int) g = 0"
  by (induction g) auto

lemma from_bits_spec_zeros:
  "list_all (\<lambda>b. b = 0) bits \<Longrightarrow> list_all (\<lambda>w. w = 0) (from_bits_spec bits)"
proof -
  assume z: "list_all (\<lambda>b. b = 0) bits"
  have "list_all (\<lambda>b. b = 0) g" if "g \<in> set (chunks 8 bits)" for g
    using z set_chunks [OF that] by (auto simp: list_all_iff)
  then show ?thesis
    by (auto simp: from_bits_spec_def list_all_iff bits_value_def bits_value_zeros)
qed

lemma take_drop_to_bits:
  "k < length data \<Longrightarrow> take 8 (drop (8 * k) (to_bits data)) = to_bits_byte (data ! k)"
proof (induction data arbitrary: k)
  case Nil
  then show ?case by simp
next
  case (Cons w data)
  then show ?case by (cases k) (simp_all add: add.commute)
qed

subsection \<open>Properties of the Bit Planner\<close>

text \<open>C4 (round trip): \<open>_from_bits\<close> recovers every byte string from the bit
  stream \<open>_to_bits\<close> makes of it, without raising.\<close>

theorem from_bits_to_bits: "from_bits (to_bits data) = Inr data"
  by (simp add: from_bits_binary from_bits_spec_to_bits)

text \<open>C5 (refinement): on a list of 0/1 bits the accumulator loop of \<open>_from_bits\<close>
  computes the reference reading: complete groups of eight bits, each read most
  significant bit first; in particular it never raises there.\<close>

theorem from_bits_refines_spec: "binary bits \<Longrightarrow> from_bits bits = Inr (from_bits_spec bits)"
  by (simp add: from_bits_def from_bits_loop_spec)

theorem from_bits_refines_spec_witness:
  "from_bits [0, 1, 0, 0, 0, 0, 0, 1, 1, 0] = Inr [0x41] \<and>
   from_bits_spec [0, 1, 0, 0, 0, 0, 0, 1, 1, 0] = [0x41]"
proof -
  have "from_bits [0, 1, 0, 0, 0, 0, 0, 1, 1, 0] = Inr (from_bits_spec [0, 1, 0, 0, 0, 0, 0, 1, 1, 0])"
    by (rule from_bits_refines_spec) simp
  moreover have "from_bits [0, 1, 0, 0, 0, 0, 0, 1, 1, 0] = Inr [0x41]"
    by (simp add: from_bits_def)
  ultimately show ?thesis by simp
qed

text \<open>C14 (functional): a trailing group of fewer than eight bits is discarded:
  \<open>_from_bits\<close> of a 0/1 list is \<open>_from_bits\<close> of its longest prefix whose length is
  a multiple of eight.\<close>

theorem from_bits_drops_partial:
  "binary bits \<Longrightarrow> from_bits bits = from_bits (take (8 * (length bits div 8)) bits)"
proof -
  assume b: "binary bits"
  have "from_bits_spec (take (8 * (length bits div 8)) (drop (8 * 0) bits)) =
        take (length bits div 8) (drop 0 (from_bits_spec bits))"
    by (rule from_bits_spec_take_drop [symmetric])
  then have "from_bits_spec (take (8 * (length bits div 8)) bits) = from_bits_spec bits"
    by (simp add: length_from_bits_spec)
  with b show ?thesis by (simp add: from_bits_binary binary_take)
qed

theorem from_bits_drops_partial_witness:
  "from_bits [0, 1, 0, 0, 0, 0, 0, 1, 1, 1, 1] = from_bits [0, 1, 0, 0, 0, 0, 0, 1]"
  using from_bits_drops_partial [of "[0, 1, 0, 0, 0, 0, 0, 1, 1, 1, 1]"] by simp

text \<open>C16 (functional): \<open>_to_bits\<close> emits eight 0/1 bits per byte, and the
  k-th group of eight, read most significant bit first, is the k-th byte.\<close>

theorem to_bits_msb_first:
  "length (to_bits data) = 8 * length data \<and> binary (to_bits data) \<and>
   map (\<lambda>k. bits_value (take 8 (drop (8 * k) (to_bits data)))) [0..<length data] = map uint data"
proof -
  have "bits_value (take 8 (drop (8 * k) (to_bits data))) = uint (data ! k)" if "k < length data" for k
    using that by (simp only: take_drop_to_bits bits_value_to_bits_byte)
  then have "map (\<lambda>k. bits_value (take 8 (drop (8 * k) (to_bits data)))) [0..<length data] =
        map (\<lambda>k. uint (data ! k)) [0..<length data]"
    by (intro map_cong) auto
  also have "\<dots> = map uint (map (nth data) [0..<length data])"
    by (simp only: map_map o_def)
  also have "\<dots> = map uint data"
    by (simp only: map_nth)
  finally show ?thesis using length_to_bits binary_to_bits by blast
qed


end
