(* ===== verification/Canvas.thy ===== *)
theory Canvas
  imports Prelude
begin

text \<open>
  The Pixel Channel Writer/Reader of \<^verbatim>\<open>src/image_steganography/core.py\<close>.
  An image after \<open>Image.open(...).convert("RGBA")\<close> is the record \<open>image\<close>: its
  \<open>img.size\<close> and its pixel access object, a list of rows in which
  \<open>pixels[x, y]\<close> is \<open>pixels img ! y ! x\<close>; a pixel is the 4-tuple \<open>(r, g, b, a)\<close>
  of 8-bit channels. The double loop \<open>for y in range(height): for x in range(width)\<close>
  visits the positions \<open>row_major w h\<close> of an image of width \<open>w\<close> and height \<open>h\<close>. The writer (lines 125--137 of
  \<open>_fallback_encode\<close>) pulls bits from one iterator, three per pixel into red, green
  and blue through \<open>(c & ~1) | next(it)\<close>, and stops at the first
  \<open>StopIteration\<close>, storing the partly updated pixel; that is \<open>embed_pixel\<close> (the
  new pixel, the rest of the iterator, whether it stopped) and \<open>embed_loop\<close>, which
  updates the pixel list in place as \<open>pixels[x, y] = (r, g, b, a)\<close> does. The reader
  (lines 147--151 of \<open>_fallback_decode\<close>) collects \<open>r & 1, g & 1, b & 1\<close> of
  every pixel in the same order. The lemmas show that reading back after writing yields
  the written bits followed by the untouched low bits, that only the low bit of a channel
  changes, that alpha is never written, and that no pixel after the payload is touched.
\<close>

unbundle bit_operations_syntax

record rgba =
  red :: byte
  green :: byte
  blue :: byte
  alpha :: byte

record image =
  width :: nat
  height :: nat
  pixels :: "rgba list list"

definition wf_image :: "image \<Rightarrow> bool" where
  "wf_image img \<longleftrightarrow>
     length (pixels img) = height img \<and> list_all (\<lambda>row. length row = width img) (pixels img)"

definition capacity :: "nat \<Rightarrow> nat \<Rightarrow> nat" where
  "capacity w h = w * h * 3"

definition row_major :: "nat \<Rightarrow> nat \<Rightarrow> (nat \<times> nat) list" where
  "row_major w h = concat (map (\<lambda>y. map (\<lambda>x. (x, y)) [0..<w]) [0..<h])"

definition set_lsb :: "byte \<Rightarrow> int \<Rightarrow> byte" where
  "set_lsb c bt = (c AND NOT 1) OR word_of_int bt"

fun embed_pixel :: "rgba \<Rightarrow> int list \<Rightarrow> rgba \<times> int list \<times> bool" where
  "embed_pixel p [] = (p, [], True)"
| "embed_pixel p [r] = (p\<lparr>red := set_lsb (red p) r\<rparr>, [], True)"
| "embed_pixel p [r, g] =
     (p\<lparr>red := set_lsb (red p) r, green := set_lsb (green p) g\<rparr>, [], True)"
| "embed_pixel p (r # g # b # it) =
     (p\<lparr>red := set_lsb (red p) r, green := set_lsb (green p) g, blue := set_lsb (blue p) b\<rparr>,
      it, False)"

fun embed_loop :: "rgba list list \<Rightarrow> (nat \<times> nat) list \<Rightarrow> int list \<Rightarrow> rgba list list" where
  "embed_loop px [] it = px"
| "embed_loop px ((x, y) # xys) it =
     (case embed_pixel (px ! y ! x) it of
        (p, it', stop) \<Rightarrow>
          let px' = px[y := (px ! y)[x := p]] in
          if stop then px' else embed_loop px' xys it')"

definition read_pixel :: "rgba \<Rightarrow> int list" where
  "read_pixel p = [uint (red p) AND 1, uint (green p) AND 1, uint (blue p) AND 1]"

definition read_loop :: "rgba list list \<Rightarrow> (nat \<times> nat) list \<Rightarrow> int list" where
  "read_loop px xys = concat (map (\<lambda>(x, y). read_pixel (px ! y ! x)) xys)"

definition in_range :: "rgba list list \<Rightarrow> (nat \<times> nat) list \<Rightarrow> bool" where
  "in_range px xys \<longleftrightarrow> list_all (\<lambda>(x, y). y < length px \<and> x < length (px ! y)) xys"

subsection \<open>One channel\<close>

lemma uint_set_lsb: "b = 0 \<or> b = 1 \<Longrightarrow> uint (set_lsb c b) = uint c - uint c mod 2 + b"
proof -
  assume b: "b = 0 \<or> b = 1"
  have "(c AND NOT 1) AND word_of_int b = 0" using b by (auto simp: and.assoc)
  then have "uint ((c AND NOT 1) OR word_of_int b) = uint (c AND NOT 1) + uint (word_of_int b :: byte)"
    by (rule uint_or_disjoint)
  with b uint_and_not_one [of c] show ?thesis by (auto simp: set_lsb_def)
qed

lemma lsb_set_lsb [simp]: "b = 0 \<or> b = 1 \<Longrightarrow> uint (set_lsb c b) AND 1 = b"
proof -
  assume b: "b = 0 \<or> b = 1"
  then have "uint (set_lsb c b) = uint c - uint c mod 2 + b" by (rule uint_set_lsb)
  moreover have "(uint c - uint c mod 2 + b) mod 2 = b" using b by presburger
  ultimately show ?thesis by (simp add: and_one_eq)
qed

lemma binary_read_pixel [simp]: "binary (read_pixel p)"
  by (simp add: read_pixel_def and_one_eq mod2_eq_if)

lemma length_read_pixel [simp]: "length (read_pixel p) = 3"
  by (simp add: read_pixel_def)

subsection \<open>One pixel\<close>

lemma embed_pixel_result:
  assumes "binary it" and "embed_pixel p it = (p', it', stop)"
  shows "read_pixel p' = take 3 it @ drop (length it) (read_pixel p)
       \<and> it' = drop 3 it \<and> (stop \<longleftrightarrow> length it < 3) \<and> alpha p' = alpha p"
  using assms by (cases "(p, it)" rule: embed_pixel.cases) (auto simp: read_pixel_def)

lemma embed_pixel_Nil: "embed_pixel p [] = (p, [], True)"
  by simp

subsection \<open>Updating one pixel of the pixel list\<close>

lemma nested_update_other:
  "(x, y) \<noteq> (x0, y0) \<Longrightarrow> px[y0 := (px ! y0)[x0 := p]] ! y ! x = px ! y ! x"
  by (cases "y0 < length px") (auto simp: nth_list_update list_update_beyond)

lemma nested_update_same:
  "y < length px \<Longrightarrow> x < length (px ! y) \<Longrightarrow> px[y := (px ! y)[x := p]] ! y ! x = p"
  by simp

lemma nested_update_id: "px[y := (px ! y)[x := px ! y ! x]] = px"
  by simp

lemma length_nested_update [simp]: "length (px[y0 := (px ! y0)[x0 := p]]) = length px"
  by simp

lemma row_length_nested_update [simp]:
  "map length (px[y0 := (px ! y0)[x0 := p]]) = map length px"
  by (rule map_update_same) (simp add: map_update_same)

lemma in_range_nested_update:
  "in_range (px[y0 := (px ! y0)[x0 := p]]) xys = in_range px xys"
proof -
  have "length (px[y0 := (px ! y0)[x0 := p]] ! y) = length (px ! y)" for y
    using row_length_nested_update [of px y0 x0 p]
    by (metis length_nested_update nth_map not_less nth_list_update_neq list_update_beyond)
  then show ?thesis by (simp add: in_range_def)
qed

lemma read_loop_nested_update:
  "(x0, y0) \<notin> set xys \<Longrightarrow> read_loop (px[y0 := (px ! y0)[x0 := p]]) xys = read_loop px xys"
proof -
  assume out: "(x0, y0) \<notin> set xys"
  have "read_pixel (px[y0 := (px ! y0)[x0 := p]] ! y ! x) = read_pixel (px ! y ! x)"
    if "(x, y) \<in> set xys" for x y
  proof -
    from that out have "(x, y) \<noteq> (x0, y0)" by auto
    then have "px[y0 := (px ! y0)[x0 := p]] ! y ! x = px ! y ! x" by (rule nested_update_other)
    then show ?thesis by simp
  qed
  then show ?thesis unfolding read_loop_def
    by (intro arg_cong [where f = concat] map_cong) auto
qed

lemma alpha_nested_update:
  "alpha p = alpha (px ! y ! x) \<Longrightarrow>
   map (map alpha) (px[y := (px ! y)[x := p]]) = map (map alpha) px"
  by (rule map_update_same) (simp add: map_update_same)

subsection \<open>The loop\<close>

lemma length_embed_loop [simp]: "length (embed_loop px xys it) = length px"
  by (induction px xys it rule: embed_loop.induct) (auto simp: Let_def split: prod.split)

lemma row_length_embed_loop [simp]: "map length (embed_loop px xys it) = map length px"
  by (induction px xys it rule: embed_loop.induct) (auto simp: Let_def split: prod.split)

lemma embed_loop_other:
  "(x, y) \<notin> set xys \<Longrightarrow> embed_loop px xys it ! y ! x = px ! y ! x"
  by (induction px xys it rule: embed_loop.induct)
     (auto simp: Let_def nested_update_other split: prod.split)

lemma length_read_loop [simp]: "length (read_loop px xys) = 3 * length xys"
  by (induction xys) (auto simp: read_loop_def)

lemma binary_read_loop [simp]: "binary (read_loop px xys)"
  by (induction xys) (auto simp: read_loop_def)

lemma alpha_embed_pixel: "embed_pixel p it = (p', it', stop) \<Longrightarrow> alpha p' = alpha p"
  by (cases "(p, it)" rule: embed_pixel.cases) auto

lemma read_embed_loop:
  "binary it \<Longrightarrow> distinct xys \<Longrightarrow> in_range px xys \<Longrightarrow>
   read_loop (embed_loop px xys it) xys = take (3 * length xys) it @ drop (length it) (read_loop px xys)"
proof (induction xys arbitrary: px it)
  case Nil
  then show ?case by (simp add: read_loop_def)
next
  case (Cons xy xys)
  obtain x y where xy: "xy = (x, y)" by fastforce
  obtain p it' stop where ep: "embed_pixel (px ! y ! x) it = (p, it', stop)"
    by (metis prod_cases3)
  let ?px' = "px[y := (px ! y)[x := p]]"
  let ?rp = "read_pixel (px ! y ! x)"
  from Cons.prems xy have out: "(x, y) \<notin> set xys" and dist: "distinct xys"
    and rng: "y < length px" "x < length (px ! y)" and rng': "in_range px xys"
    by (auto simp: in_range_def)
  from embed_pixel_result [OF Cons.prems(1) ep]
  have rp: "read_pixel p = take 3 it @ drop (length it) ?rp"
    and it': "it' = drop 3 it" and st: "stop \<longleftrightarrow> length it < 3" by auto
  have unfold: "read_loop L ((x, y) # xys) = read_pixel (L ! y ! x) @ read_loop L xys" for L
    by (simp add: read_loop_def)
  show ?case
  proof (cases stop)
    case True
    then have "embed_loop px (xy # xys) it = ?px'" using xy ep by simp
    moreover have "read_loop ?px' xys = read_loop px xys"
      using out by (rule read_loop_nested_update)
    ultimately show ?thesis
      using True st rp rng xy unfold by (simp add: drop_append)
  next
    case False
    then have loop: "embed_loop px (xy # xys) it = embed_loop ?px' xys it'" using xy ep by simp
    have "in_range ?px' xys" using rng' by (simp add: in_range_nested_update)
    then have IH: "read_loop (embed_loop ?px' xys it') xys =
                   take (3 * length xys) it' @ drop (length it') (read_loop ?px' xys)"
      using Cons.IH [of it' ?px'] Cons.prems(1) dist it' by (simp add: binary_drop)
    have "embed_loop ?px' xys it' ! y ! x = p"
      using out rng by (simp add: embed_loop_other)
    moreover have "read_loop ?px' xys = read_loop px xys"
      using out by (rule read_loop_nested_update)
    ultimately show ?thesis
      using False st rp it' xy IH loop unfold [of "embed_loop ?px' xys it'"] unfold [of px]
      by (simp add: take_add drop_append)
  qed
qed

lemma alpha_embed_loop: "map (map alpha) (embed_loop px xys it) = map (map alpha) px"
proof (induction px xys it rule: embed_loop.induct)
  case (1 px it)
  then show ?case by simp
next
  case (2 px x y xys it)
  obtain p it' stop where ep: "embed_pixel (px ! y ! x) it = (p, it', stop)"
    by (metis prod_cases3)
  then have "map (map alpha) (px[y := (px ! y)[x := p]]) = map (map alpha) px"
    by (intro alpha_nested_update) (rule alpha_embed_pixel)
  with 2 ep show ?case by (auto simp: Let_def)
qed

subsection \<open>Positions in row-major order\<close>

lemma length_row_major [simp]: "length (row_major w h) = w * h"
  by (induction h) (auto simp: row_major_def)

lemma set_row_major: "set (row_major w h) = {(x, y). x < w \<and> y < h}"
  by (auto simp: row_major_def)

lemma distinct_row_major: "distinct (row_major w h)"
proof (induction h)
  case 0
  then show ?case by (simp add: row_major_def)
next
  case (Suc h)
  have "row_major w (Suc h) = row_major w h @ map (\<lambda>x. (x, h)) [0..<w]"
    by (simp add: row_major_def)
  with Suc show ?case by (auto simp: distinct_map inj_on_def set_row_major)
qed

lemma row_major_split:
  "k \<le> h \<Longrightarrow> row_major w h = row_major w k @ concat (map (\<lambda>y. map (\<lambda>x. (x, y)) [0..<w]) [k..<h])"
proof -
  assume "k \<le> h"
  then have "[0..<h] = [0..<k] @ [k..<h]"
    by (metis le_add_diff_inverse upt_add_eq_append le0)
  then show ?thesis by (simp add: row_major_def)
qed

lemma read_loop_append: "read_loop px (xs @ ys) = read_loop px xs @ read_loop px ys"
  by (simp add: read_loop_def)

lemma read_loop_crop_rows:
  assumes "k \<le> h"
  shows "read_loop (take k px) (row_major w k) = take (3 * (w * k)) (read_loop px (row_major w h))"
proof -
  have "read_loop (take k px) (row_major w k) = read_loop px (row_major w k)"
    unfolding read_loop_def by (intro arg_cong [where f = concat] map_cong) (auto simp: set_row_major)
  then show ?thesis
    using row_major_split [OF assms, of w] by (simp add: read_loop_append)
qed

lemma in_range_row_major: "wf_image img \<Longrightarrow> in_range (pixels img) (row_major (width img) (height img))"
  by (auto simp: in_range_def wf_image_def list_all_iff set_row_major)

subsection \<open>Properties of the Pixel Channel Writer/Reader\<close>

text \<open>C3 (functional): on a well-formed image, reading the low bits back after the
  writer has run over the row-major positions gives the first \<open>capacity\<close> bits of the
  stream, followed by the untouched low bits of the positions past the stream.\<close>

theorem read_after_write:
  assumes "wf_image img" and "binary bits"
  shows "read_loop (embed_loop (pixels img) (row_major (width img) (height img)) bits)
                   (row_major (width img) (height img)) =
         take (capacity (width img) (height img)) bits @
         drop (length bits) (read_loop (pixels img) (row_major (width img) (height img)))"
proof -
  have "read_loop (embed_loop (pixels img) (row_major (width img) (height img)) bits)
          (row_major (width img) (height img)) =
        take (3 * length (row_major (width img) (height img))) bits @
        drop (length bits) (read_loop (pixels img) (row_major (width img) (height img)))"
    using assms(2) distinct_row_major in_range_row_major [OF assms(1)] by (rule read_embed_loop)
  then show ?thesis by (simp add: capacity_def mult.commute)
qed

theorem read_after_write_witness:
  "read_loop (embed_loop [[\<lparr>red = 20, green = 40, blue = 61, alpha = 255\<rparr>,
                           \<lparr>red = 20, green = 41, blue = 61, alpha = 255\<rparr>]] (row_major 2 1) [1, 1, 0, 1])
             (row_major 2 1) = [1, 1, 0, 1, 1, 1]"
proof -
  let ?px = "[[\<lparr>red = 20, green = 40, blue = 61, alpha = 255\<rparr>,
               \<lparr>red = 20, green = 41, blue = 61, alpha = 255\<rparr>]]"
  have "wf_image \<lparr>width = 2, height = 1, pixels = ?px\<rparr>" by (simp add: wf_image_def)
  then have eq: "read_loop (embed_loop ?px (row_major 2 1) [1, 1, 0, 1]) (row_major 2 1) =
      take (capacity 2 1) [1, 1, 0, 1] @ drop (length [1, 1, 0, 1::int]) (read_loop ?px (row_major 2 1))"
    using read_after_write [of "\<lparr>width = 2, height = 1, pixels = ?px\<rparr>" "[1, 1, 0, 1]"]
    by simp
  have "read_loop ?px (row_major 2 1) = [0, 0, 1, 0, 1, 1]"
    by (simp add: row_major_def read_loop_def read_pixel_def upt_rec)
  with eq show ?thesis by (simp add: capacity_def)
qed

text \<open>C10 (bounds): writing a bit into a channel with \<open>(c & ~1) | bit\<close> sets its low
  bit to the bit and keeps its seven high bits, so the channel value moves by at most 1.\<close>

theorem set_lsb_bounds:
  assumes "b = 0 \<or> b = 1"
  shows "uint (set_lsb c b) AND 1 = b \<and> uint (set_lsb c b) div 2 = uint c div 2 \<and>
         \<bar>uint (set_lsb c b) - uint c\<bar> \<le> 1"
proof -
  have u: "uint (set_lsb c b) = uint c - uint c mod 2 + b" using assms by (rule uint_set_lsb)
  have "uint c - uint c mod 2 = 2 * (uint c div 2)" by (simp add: minus_mod_eq_mult_div)
  with u assms have "uint (set_lsb c b) div 2 = uint c div 2" by auto
  moreover from u assms have "\<bar>uint (set_lsb c b) - uint c\<bar> \<le> 1" by auto
  ultimately show ?thesis using assms by simp
qed

theorem set_lsb_bounds_witness:
  "uint (set_lsb 255 0) AND 1 = 0 \<and> uint (set_lsb 255 0) div 2 = 127 \<and>
   \<bar>uint (set_lsb 255 0) - 255\<bar> \<le> 1"
  using set_lsb_bounds [of 0 255] by simp

text \<open>C11 (invariant): the writer never writes the alpha channel: the alpha values of
  the pixel list are the same after the loop, whatever the positions and the bits.\<close>

theorem alpha_never_written: "map (map alpha) (embed_loop px xys bits) = map (map alpha) px"
  by (rule alpha_embed_loop)

text \<open>C12 (safety): a position outside the first \<open>\<lceil>n/3\<rceil>\<close> positions of the
  visiting order, for a stream of \<open>n\<close> bits, keeps its pixel: the writer stops at the
  first exhausted pixel and leaves every later pixel untouched.\<close>

theorem pixels_after_payload_untouched:
  "(x, y) \<notin> set (take ((length it + 2) div 3) xys) \<Longrightarrow> embed_loop px xys it ! y ! x = px ! y ! x"
proof (induction xys arbitrary: px it)
  case Nil
  then show ?case by simp
next
  case (Cons xy xys)
  obtain x0 y0 where xy: "xy = (x0, y0)" by fastforce
  show ?case
  proof (cases "length it < 3")
    case short: True
    show ?thesis
    proof (cases "it = []")
      case True
      then show ?thesis using xy by (simp add: Let_def)
    next
      case False
      then have "length it \<noteq> 0" by simp
      with short have len: "length it = 1 \<or> length it = 2" by arith
      then have "(length it + 2) div 3 = 1" by auto
      with Cons.prems xy have ne: "(x, y) \<noteq> (x0, y0)" by auto
      from len obtain p where ep: "embed_pixel (px ! y0 ! x0) it = (p, [], True)"
        by (cases "(px ! y0 ! x0, it)" rule: embed_pixel.cases) auto
      then show ?thesis using xy ne by (simp add: nested_update_other)
    qed
  next
    case False
    then obtain r g b rest where it: "it = r # g # b # rest"
      by (metis Suc_le_length_iff numeral_3_eq_3 not_less)
    let ?p = "fst (embed_pixel (px ! y0 ! x0) it)"
    have k: "(length it + 2) div 3 = Suc ((length rest + 2) div 3)" using it by simp
    with Cons.prems xy have ne: "(x, y) \<noteq> (x0, y0)"
      and out: "(x, y) \<notin> set (take ((length rest + 2) div 3) xys)" by auto
    have "embed_loop (px[y0 := (px ! y0)[x0 := ?p]]) xys rest ! y ! x =
          px[y0 := (px ! y0)[x0 := ?p]] ! y ! x"
      using out by (rule Cons.IH)
    with ne it xy show ?thesis by (simp add: nested_update_other)
  qed
qed

theorem pixels_after_payload_untouched_witness:
  "embed_loop [[\<lparr>red = 7, green = 7, blue = 7, alpha = 9\<rparr>, \<lparr>red = 7, green = 7, blue = 7, alpha = 9\<rparr>]]
     [(0, 0), (1, 0)] [0, 0, 0] ! 0 ! 1 = \<lparr>red = 7, green = 7, blue = 7, alpha = 9\<rparr>"
  using pixels_after_payload_untouched [of 1 0 "[0, 0, 0]" "[(0, 0), (1, 0)]"] by simp

text \<open>C15 (bounds): the reader always yields exactly \<open>capacity\<close> bits, three per pixel,
  whatever the payload.\<close>

theorem read_length_capacity: "length (read_loop px (row_major w h)) = capacity w h"
  by (simp add: capacity_def)

end
