(* ===== verification/Frame.thy ===== *)
theory Frame
  imports Prelude
begin

text \<open>
  The Payload Framer of \<^verbatim>\<open>src/image_steganography/core.py\<close>. The frame is
  \<open>_HEADER + len(body).to_bytes(4, "big") + body\<close> (lines 94 and 119), with the magic
  marker \<open>b"IMSG\x00"\<close>. \<open>int.to_bytes(length, "big")\<close> is \<open>int_to_bytes\<close>: the
  big-endian digits in base 256, or \<open>OverflowError\<close> when the value needs more than
  \<open>length\<close> bytes; \<open>int.from_bytes(bs, "big")\<close> is \<open>int_from_bytes\<close>;
  \<open>bytes.startswith\<close> is \<open>startswith\<close>. The parsing half of the framer is inline in
  \<open>_fallback_decode\<close> and is modelled with it in \<open>Codec\<close>. The lemmas: the length
  field reads back as the length it encodes, and the frame starts with the marker.
\<close>

definition HEADER :: "byte list" where
  "HEADER = [0x49, 0x4D, 0x53, 0x47, 0x00]"

fun be_digits :: "nat \<Rightarrow> nat \<Rightarrow> byte list" where
  "be_digits 0 n = []"
| "be_digits (Suc k) n = be_digits k (n div 256) @ [word_of_nat (n mod 256)]"

definition int_to_bytes :: "nat \<Rightarrow> nat \<Rightarrow> py_error + byte list" where
  "int_to_bytes n len =
     (if n < 256 ^ len then Inr (be_digits len n)
      else Inl (OverflowError ''int too big to convert''))"

definition int_from_bytes :: "byte list \<Rightarrow> nat" where
  "int_from_bytes bs = foldl (\<lambda>acc b. acc * 256 + unat b) 0 bs"

definition startswith :: "byte list \<Rightarrow> byte list \<Rightarrow> bool" where
  "startswith s prefix \<longleftrightarrow> take (length prefix) s = prefix"

definition frame_payload :: "byte list \<Rightarrow> py_error + byte list" where
  "frame_payload body =
     (case int_to_bytes (length body) 4 of
        Inl e \<Rightarrow> Inl e
      | Inr len_bytes \<Rightarrow> Inr (HEADER @ len_bytes @ body))"

subsection \<open>The length field\<close>

lemma length_HEADER [simp]: "length HEADER = 5"
  by (simp add: HEADER_def)

lemma length_be_digits [simp]: "length (be_digits k n) = k"
  by (induction k arbitrary: n) auto

lemma be_digits_numeral:
  "be_digits (numeral k) n = be_digits (pred_numeral k) (n div 256) @ [word_of_nat (n mod 256)]"
  by (subst numeral_eq_Suc) (simp only: be_digits.simps)

lemma int_from_bytes_snoc: "int_from_bytes (xs @ [b]) = int_from_bytes xs * 256 + unat b"
  by (simp add: int_from_bytes_def)

lemma int_from_be_digits: "int_from_bytes (be_digits k n) = n mod 256 ^ k"
proof (induction k arbitrary: n)
  case 0
  then show ?case by (simp add: int_from_bytes_def)
next
  case (Suc k)
  have "unat (word_of_nat (n mod 256) :: byte) = n mod 256"
    by (simp add: unat_of_nat)
  then have "int_from_bytes (be_digits (Suc k) n) = n div 256 mod 256 ^ k * 256 + n mod 256"
    using Suc.IH by (simp add: int_from_bytes_snoc)
  also have "\<dots> = n mod 256 ^ Suc k"
    by (simp add: mod_mult2_eq mult.commute)
  finally show ?case .
qed

lemma int_to_bytes_ok: "n < 256 ^ k \<Longrightarrow> int_to_bytes n k = Inr (be_digits k n)"
  by (simp add: int_to_bytes_def)

lemma int_from_int_to_bytes: "n < 256 ^ k \<Longrightarrow> int_from_bytes (be_digits k n) = n"
  by (simp add: int_from_be_digits)

lemma frame_payload_ok:
  "length body < 2 ^ 32 \<Longrightarrow> frame_payload body = Inr (HEADER @ be_digits 4 (length body) @ body)"
  by (simp add: frame_payload_def int_to_bytes_def)

lemma startswith_append [simp]: "startswith (p @ rest) p"
  by (simp add: startswith_def)

subsection \<open>Properties of the framer\<close>

text \<open>C7 (round trip): a length below \<open>256^k\<close> is written by \<open>to_bytes(k, "big")\<close> as
  exactly \<open>k\<close> bytes, and \<open>int.from_bytes(..., "big")\<close> reads it back.\<close>

theorem length_field_roundtrip:
  "n < 256 ^ k \<Longrightarrow> \<exists>bs. int_to_bytes n k = Inr bs \<and> length bs = k \<and> int_from_bytes bs = n"
  by (simp add: int_to_bytes_ok int_from_be_digits)

theorem length_field_roundtrip_witness:
  "int_to_bytes 300 4 = Inr [0, 0, 1, 44] \<and> int_from_bytes [0, 0, 1, 44] = 300"
proof -
  have "int_to_bytes 300 4 = Inr [0, 0, 1, 44]"
    by (simp add: int_to_bytes_def be_digits_numeral)
  moreover from length_field_roundtrip [of 300 4]
  obtain bs where "int_to_bytes 300 4 = Inr bs" and "int_from_bytes bs = 300" by auto
  ultimately show ?thesis by simp
qed


end
