(* ===== verification/Utf8.thy ===== *)
theory Utf8
  imports Prelude
begin

text \<open>
  The text codec the fallback codec calls: \<open>message.encode("utf-8")\<close> on line 119 of
  \<^verbatim>\<open>src/image_steganography/core.py\<close> and \<open>msg_bytes.decode("utf-8")\<close> on line 164.
  Both are CPython built-ins, modelled from the UTF-8 definition (RFC 3629, Unicode
  table 3-7) as CPython's strict codec applies it: the encoder raises
  \<open>UnicodeEncodeError\<close> on a surrogate code point (a Python \<^verbatim>\<open>str\<close> may hold one), the
  decoder rejects overlong forms, surrogates, values beyond U+10FFFF, stray continuation
  bytes and truncated sequences; a rejected input is \<open>None\<close>, which
  \<open>_fallback_decode\<close> turns into the empty string. The decoder reads one scalar value
  per step and recurses on the remaining bytes; its termination is by the length of the
  byte list. The main lemma: decoding an encoding gives the text back.
\<close>

definition utf8_encode_char :: "nat \<Rightarrow> py_error + byte list" where
  "utf8_encode_char c =
     (if c < 0x80 then Inr [word_of_nat c]
      else if c < 0x800 then Inr [word_of_nat (0xC0 + c div 64), word_of_nat (0x80 + c mod 64)]
      else if c < 0x10000 then
        (if 0xD800 \<le> c \<and> c < 0xE000 then Inl UnicodeEncodeError
         else Inr [word_of_nat (0xE0 + c div 4096), word_of_nat (0x80 + c div 64 mod 64),
                   word_of_nat (0x80 + c mod 64)])
      else if c < 0x110000 then
        Inr [word_of_nat (0xF0 + c div 262144), word_of_nat (0x80 + c div 4096 mod 64),
             word_of_nat (0x80 + c div 64 mod 64), word_of_nat (0x80 + c mod 64)]
      else Inl UnicodeEncodeError)"

primrec utf8_encode :: "pystr \<Rightarrow> py_error + byte list" where
  "utf8_encode [] = Inr []"
| "utf8_encode (c # s) =
     (case utf8_encode_char c of
        Inl e \<Rightarrow> Inl e
      | Inr bs \<Rightarrow> (case utf8_encode s of Inl e \<Rightarrow> Inl e | Inr rest \<Rightarrow> Inr (bs @ rest)))"

definition cont_byte :: "nat \<Rightarrow> nat \<Rightarrow> nat \<Rightarrow> bool" where
  "cont_byte lo hi b \<longleftrightarrow> lo \<le> b \<and> b \<le> hi"

text \<open>The admissible range of the second byte depends on the lead byte (table 3-7).\<close>

definition second_lo :: "nat \<Rightarrow> nat" where
  "second_lo b = (if b = 0xE0 then 0xA0 else if b = 0xF0 then 0x90 else 0x80)"

definition second_hi :: "nat \<Rightarrow> nat" where
  "second_hi b = (if b = 0xED then 0x9F else if b = 0xF4 then 0x8F else 0xBF)"

fun utf8_decode_char :: "byte list \<Rightarrow> (nat \<times> byte list) option" where
  "utf8_decode_char [] = None"
| "utf8_decode_char (b # bs) =
     (let b = unat b in
      if b < 0x80 then Some (b, bs)
      else if 0xC2 \<le> b \<and> b \<le> 0xDF then
        (case bs of
           c1 # rest \<Rightarrow>
             if cont_byte 0x80 0xBF (unat c1) then Some ((b - 0xC0) * 64 + (unat c1 - 0x80), rest)
             else None
         | _ \<Rightarrow> None)
      else if 0xE0 \<le> b \<and> b \<le> 0xEF then
        (case bs of
           c1 # c2 # rest \<Rightarrow>
             if cont_byte (second_lo b) (second_hi b) (unat c1) \<and> cont_byte 0x80 0xBF (unat c2)
             then Some ((b - 0xE0) * 4096 + (unat c1 - 0x80) * 64 + (unat c2 - 0x80), rest)
             else None
         | _ \<Rightarrow> None)
      else if 0xF0 \<le> b \<and> b \<le> 0xF4 then
        (case bs of
           c1 # c2 # c3 # rest \<Rightarrow>
             if cont_byte (second_lo b) (second_hi b) (unat c1) \<and> cont_byte 0x80 0xBF (unat c2)
                \<and> cont_byte 0x80 0xBF (unat c3)
             then Some ((b - 0xF0) * 262144 + (unat c1 - 0x80) * 4096 + (unat c2 - 0x80) * 64
                        + (unat c3 - 0x80), rest)
             else None
         | _ \<Rightarrow> None)
      else None)"

function utf8_decode :: "byte list \<Rightarrow> pystr option" where
  "utf8_decode bs =
     (if bs = [] then Some []
      else case utf8_decode_char bs of
             None \<Rightarrow> None
           | Some (c, rest) \<Rightarrow> map_option (Cons c) (utf8_decode rest))"
  by pat_completeness auto
termination
  by (relation "measure length") (auto simp: Let_def elim!: utf8_decode_char.elims split: if_splits list.splits)

declare utf8_decode.simps [simp del]

subsection \<open>Decoding an encoded character\<close>

lemma unat_byte_of: "n < 256 \<Longrightarrow> unat (word_of_nat n :: byte) = n"
  by (simp add: unat_of_nat)

lemma digits3: "(c::nat) = c div 4096 * 4096 + c div 64 mod 64 * 64 + c mod 64"
proof -
  have "c = c div 64 * 64 + c mod 64" by simp
  moreover have "c div 64 = c div 64 div 64 * 64 + c div 64 mod 64" by simp
  moreover have "c div 64 div 64 = c div 4096" by (simp add: div_mult2_eq [symmetric])
  ultimately show ?thesis by linarith
qed

lemma decode_char_3:
  assumes "2048 \<le> c" "c < 65536" "\<not> (55296 \<le> c \<and> c < 57344)"
  shows "utf8_decode_char ([word_of_nat (0xE0 + c div 4096), word_of_nat (0x80 + c div 64 mod 64),
                   word_of_nat (0x80 + c mod 64)] @ rest) = Some (c, rest)"
proof -
  define a b d where "a = c div 4096" and "b = c div 64 mod 64" and "d = c mod 64"
  have r: "c = a * 4096 + b * 64 + d" unfolding a_def b_def d_def by (rule digits3)
  have m: "b < 64" "d < 64" by (simp_all add: b_def d_def)
  from r m assms have a: "a < 16" by linarith
  have lo: "second_lo (224 + a) \<le> 128 + b"
  proof (cases "a = 0")
    case True
    with r m assms have "32 \<le> b" by linarith
    with True show ?thesis by (simp add: second_lo_def)
  next
    case False
    with a show ?thesis by (simp add: second_lo_def)
  qed
  have hi: "128 + b \<le> second_hi (224 + a)"
  proof (cases "a = 13")
    case True
    with r m assms have "b \<le> 31" by linarith
    with True show ?thesis by (simp add: second_hi_def)
  next
    case False
    with m a show ?thesis by (simp add: second_hi_def)
  qed
  from a lo hi m r show ?thesis
    unfolding a_def [symmetric] b_def [symmetric] d_def [symmetric]
    by (simp add: unat_byte_of cont_byte_def Let_def del: of_nat_add)
qed
lemma digits4: "(c::nat) = c div 262144 * 262144 + c div 4096 mod 64 * 4096 + c div 64 mod 64 * 64 + c mod 64"
proof -
  have "c div 4096 = c div 4096 div 64 * 64 + c div 4096 mod 64" by simp
  moreover have "c div 4096 div 64 = c div 262144" by (simp add: div_mult2_eq [symmetric])
  ultimately show ?thesis using digits3 [of c] by linarith
qed

lemma decode_char_4:
  assumes "65536 \<le> c" "c < 1114112"
  shows "utf8_decode_char ([word_of_nat (0xF0 + c div 262144), word_of_nat (0x80 + c div 4096 mod 64),
             word_of_nat (0x80 + c div 64 mod 64), word_of_nat (0x80 + c mod 64)] @ rest) = Some (c, rest)"
proof -
  define a b e d where "a = c div 262144" and "b = c div 4096 mod 64" and "e = c div 64 mod 64"
    and "d = c mod 64"
  have r: "c = a * 262144 + b * 4096 + e * 64 + d"
    unfolding a_def b_def e_def d_def by (rule digits4)
  have m: "b < 64" "e < 64" "d < 64" by (simp_all add: b_def e_def d_def)
  from r m assms have a: "a \<le> 4" by linarith
  have lo: "second_lo (240 + a) \<le> 128 + b"
  proof (cases "a = 0")
    case True
    with r m assms have "16 \<le> b" by linarith
    with True show ?thesis by (simp add: second_lo_def)
  next
    case False
    with a show ?thesis by (simp add: second_lo_def)
  qed
  have hi: "128 + b \<le> second_hi (240 + a)"
  proof (cases "a = 4")
    case True
    with r m assms have "b \<le> 15" by linarith
    with True show ?thesis by (simp add: second_hi_def)
  next
    case False
    with m a show ?thesis by (simp add: second_hi_def)
  qed
  from a lo hi m r show ?thesis
    unfolding a_def [symmetric] b_def [symmetric] e_def [symmetric] d_def [symmetric]
    by (simp add: unat_byte_of cont_byte_def Let_def del: of_nat_add)
qed

lemma decode_char_1: "c < 128 \<Longrightarrow> utf8_decode_char ([word_of_nat c] @ rest) = Some (c, rest)"
  by (simp add: unat_byte_of)

lemma decode_char_2:
  assumes "128 \<le> c" "c < 2048"
  shows "utf8_decode_char ([word_of_nat (0xC0 + c div 64), word_of_nat (0x80 + c mod 64)] @ rest) =
         Some (c, rest)"
proof -
  have r: "c = c div 64 * 64 + c mod 64" by simp
  have m: "c mod 64 < 64" by simp
  with r assms have d: "2 \<le> c div 64" "c div 64 < 32" by linarith+
  with m r show ?thesis by (simp add: unat_byte_of cont_byte_def Let_def del: of_nat_add)
qed

lemma utf8_decode_char_encode:
  assumes h: "utf8_encode_char c = Inr bs"
  shows "utf8_decode_char (bs @ rest) = Some (c, rest)"
proof -
  consider (one) "c < 128" | (two) "128 \<le> c" "c < 2048"
    | (three) "2048 \<le> c" "c < 65536" "\<not> (55296 \<le> c \<and> c < 57344)"
    | (four) "65536 \<le> c" "c < 1114112"
    using h by (auto simp: utf8_encode_char_def split: if_splits)
  then show ?thesis
  proof cases
    case one
    with h show ?thesis using decode_char_1 [OF one] by (simp add: utf8_encode_char_def)
  next
    case two
    with h show ?thesis using decode_char_2 [OF two] by (simp add: utf8_encode_char_def)
  next
    case three
    with h show ?thesis using decode_char_3 [OF three] by (simp add: utf8_encode_char_def)
  next
    case four
    with h show ?thesis using decode_char_4 [OF four] by (simp add: utf8_encode_char_def)
  qed
qed

lemma utf8_decode_Cons:
  "utf8_decode_char bs = Some (c, rest) \<Longrightarrow> utf8_decode bs = map_option (Cons c) (utf8_decode rest)"
proof -
  assume h: "utf8_decode_char bs = Some (c, rest)"
  then have "bs \<noteq> []" by auto
  with h show ?thesis by (simp add: utf8_decode.simps [of bs])
qed

lemma utf8_decode_encode_helper: "utf8_encode s = Inr bs \<Longrightarrow> utf8_decode bs = Some s"
proof (induction s arbitrary: bs)
  case Nil
  then show ?case by (simp add: utf8_decode.simps)
next
  case (Cons c s)
  then obtain cb rest where c: "utf8_encode_char c = Inr cb" and s: "utf8_encode s = Inr rest"
    and bs: "bs = cb @ rest"
    by (auto split: sum.splits)
  from c have "utf8_decode_char (cb @ rest) = Some (c, rest)" by (rule utf8_decode_char_encode)
  then have "utf8_decode bs = map_option (Cons c) (utf8_decode rest)"
    using bs by (simp add: utf8_decode_Cons)
  with Cons.IH [OF s] show ?case by simp
qed


lemma utf8_encode_error_value: "utf8_encode s = Inl e \<Longrightarrow> e = UnicodeEncodeError"
proof (induction s)
  case Nil
  then show ?case by simp
next
  case (Cons c s)
  then show ?case by (auto simp: utf8_encode_char_def split: if_splits sum.splits)
qed

subsection \<open>Properties of the text codec\<close>

text \<open>C6 (round trip): whenever \<open>str.encode("utf-8")\<close> succeeds, strict
  \<open>bytes.decode("utf-8")\<close> of its result is the original string.\<close>

theorem utf8_roundtrip: "utf8_encode s = Inr bs \<Longrightarrow> utf8_decode bs = Some s"
  by (rule utf8_decode_encode_helper)

theorem utf8_roundtrip_witness:
  "utf8_encode [0x48, 0xE9, 0x20AC, 0x1F98A] =
     Inr [0x48, 0xC3, 0xA9, 0xE2, 0x82, 0xAC, 0xF0, 0x9F, 0xA6, 0x8A] \<and>
   utf8_decode [0x48, 0xC3, 0xA9, 0xE2, 0x82, 0xAC, 0xF0, 0x9F, 0xA6, 0x8A] = Some [0x48, 0xE9, 0x20AC, 0x1F98A]"
proof -
  have e: "utf8_encode [0x48, 0xE9, 0x20AC, 0x1F98A] =
     Inr [0x48, 0xC3, 0xA9, 0xE2, 0x82, 0xAC, 0xF0, 0x9F, 0xA6, 0x8A]"
    by (simp add: utf8_encode_char_def)
  from utf8_roundtrip [OF e] e show ?thesis by simp
qed





end
