(* ===== verification/Codec.thy ===== *)
theory Codec
  imports Bits Canvas Frame Utf8
begin

text \<open>
  The fallback codec of \<^verbatim>\<open>src/image_steganography/core.py\<close> on an image in memory:
  \<open>fallback_embed\<close> is \<open>_fallback_encode\<close> (lines 114--139) between
  \<open>Image.open(cover).convert("RGBA")\<close> and \<open>img.save(out)\<close>, and
  \<open>fallback_extract\<close> is \<open>_fallback_decode\<close> (lines 142--166) after the image is
  opened; loading and saving files are modelled in \<open>Api\<close>. Embedding encodes the
  message as UTF-8, frames it, flattens the frame to bits, rejects it with
  \<open>SteganographyError\<close> when it has more bits than \<open>width * height * 3\<close>, and
  otherwise runs the pixel writer. Extraction reads all low bits, regroups the first 72
  into the 9-byte header, returns the empty string when the marker is missing, reads the
  declared number of body bytes from the bits that follow and decodes them, returning the
  empty string when they are not UTF-8. Every exception the code can raise is a value of
  \<open>py_error\<close>; the lemmas show which of them can occur.
\<close>

definition fallback_embed :: "image \<Rightarrow> pystr \<Rightarrow> py_error + image" where
  "fallback_embed img message =
     (case utf8_encode message of
        Inl e \<Rightarrow> Inl e
      | Inr encoded \<Rightarrow>
          (case frame_payload encoded of
             Inl e \<Rightarrow> Inl e
           | Inr payload \<Rightarrow>
               (let bits = to_bits payload;
                    cap = capacity (width img) (height img)
                in if length bits > cap
                   then Inl (SteganographyError ''Message is too large for this image in fallback mode.'')
                   else Inr (img\<lparr>pixels := embed_loop (pixels img) (row_major (width img) (height img)) bits\<rparr>))))"

definition fallback_extract :: "image \<Rightarrow> py_error + pystr" where
  "fallback_extract img =
     (let bits = read_loop (pixels img) (row_major (width img) (height img));
          header_len_bits = (length HEADER + 4) * 8
      in case from_bits (take header_len_bits bits) of
           Inl e \<Rightarrow> Inl e
         | Inr header_bytes \<Rightarrow>
             if \<not> startswith header_bytes HEADER then Inr []
             else
               (let msg_len = int_from_bytes (take 4 (drop (length HEADER) header_bytes));
                    msg_bits = take (msg_len * 8) (drop header_len_bits bits)
                in case from_bits msg_bits of
                     Inl e \<Rightarrow> Inl e
                   | Inr msg_bytes \<Rightarrow>
                       (case utf8_decode msg_bytes of None \<Rightarrow> Inr [] | Some msg \<Rightarrow> Inr msg)))"

text \<open>The bits the writer receives for a body that fits the length field.\<close>

definition frame_bits :: "byte list \<Rightarrow> int list" where
  "frame_bits enc = to_bits (HEADER @ be_digits 4 (length enc) @ enc)"

subsection \<open>Embedding\<close>

lemma length_frame_bits [simp]: "length (frame_bits enc) = 8 * (9 + length enc)"
  by (simp add: frame_bits_def)

lemma embed_ok:
  assumes "utf8_encode msg = Inr enc" and "length enc < 2 ^ 32"
    and "8 * (9 + length enc) \<le> capacity (width img) (height img)"
  shows "fallback_embed img msg =
         Inr (img\<lparr>pixels := embed_loop (pixels img) (row_major (width img) (height img)) (frame_bits enc)\<rparr>)"
  using assms by (simp add: fallback_embed_def frame_payload_ok frame_bits_def Let_def)

lemma embed_too_large:
  assumes "utf8_encode msg = Inr enc" and "length enc < 2 ^ 32"
    and "capacity (width img) (height img) < 8 * (9 + length enc)"
  shows "fallback_embed img msg =
         Inl (SteganographyError ''Message is too large for this image in fallback mode.'')"
  using assms by (simp add: fallback_embed_def frame_payload_ok Let_def)

lemma read_after_embed:
  assumes "wf_image img" and "length bits \<le> capacity (width img) (height img)" and "binary bits"
  shows "read_loop (embed_loop (pixels img) (row_major (width img) (height img)) bits)
                   (row_major (width img) (height img)) =
         bits @ drop (length bits) (read_loop (pixels img) (row_major (width img) (height img)))"
proof -
  have "read_loop (embed_loop (pixels img) (row_major (width img) (height img)) bits)
          (row_major (width img) (height img)) =
        take (3 * length (row_major (width img) (height img))) bits @
        drop (length bits) (read_loop (pixels img) (row_major (width img) (height img)))"
    using assms(1,3) by (intro read_embed_loop distinct_row_major in_range_row_major)
  with assms(2) show ?thesis by (simp add: capacity_def mult.commute)
qed

subsection \<open>Extraction\<close>

lemma extract_parsed:
  assumes "read_loop (pixels img) (row_major (width img) (height img)) = bits"
    and "from_bits (take 72 bits) = Inr hb" and "startswith hb HEADER"
    and "int_from_bytes (take 4 (drop 5 hb)) = l"
    and "from_bits (take (l * 8) (drop 72 bits)) = Inr mb"
  shows "fallback_extract img = Inr (case utf8_decode mb of None \<Rightarrow> [] | Some m \<Rightarrow> m)"
  using assms by (simp add: fallback_extract_def Let_def split: option.split)

lemma extract_framed:
  assumes "read_loop (pixels img) (row_major (width img) (height img)) = frame_bits enc @ rest"
    and "length enc < 2 ^ 32" and "utf8_decode enc = Some msg"
  shows "fallback_extract img = Inr msg"
proof -
  let ?hdr = "HEADER @ be_digits 4 (length enc)"
  have split: "frame_bits enc @ rest = to_bits ?hdr @ (to_bits enc @ rest)"
    by (simp add: frame_bits_def)
  have hb: "from_bits (take 72 (frame_bits enc @ rest)) = Inr ?hdr"
    using from_bits_of_to_bits [of ?hdr] unfolding split by simp
  have body: "from_bits (take (length enc * 8) (drop 72 (frame_bits enc @ rest))) = Inr enc"
    using from_bits_of_to_bits [of enc] unfolding split by simp
  have len: "int_from_bytes (take 4 (drop 5 ?hdr)) = length enc"
    using assms(2) by (simp add: int_from_int_to_bytes)
  have "startswith ?hdr HEADER" by (rule startswith_append)
  from assms(1) hb this len body have "fallback_extract img = Inr (case utf8_decode enc of None \<Rightarrow> [] | Some m \<Rightarrow> m)"
    by (rule extract_parsed)
  with assms(3) show ?thesis by simp
qed

lemma read_loop_lsb_zero:
  assumes "in_range px xys"
    and "list_all (list_all (\<lambda>p. even (uint (red p)) \<and> even (uint (green p)) \<and> even (uint (blue p)))) px"
  shows "list_all (\<lambda>b. b = 0) (read_loop px xys)"
proof -
  have "px ! y ! x \<in> set (px ! y)" and "px ! y \<in> set px" if "(x, y) \<in> set xys" for x y
    using assms(1) that by (auto simp: in_range_def list_all_iff)
  with assms(2) show ?thesis
    by (fastforce simp: read_loop_def read_pixel_def list_all_iff and_one_eq)
qed

lemma not_startswith_zeros:
  assumes "list_all (\<lambda>w. w = 0) bs"
  shows "\<not> startswith bs HEADER"
proof
  assume "startswith bs HEADER"
  then have "take 5 bs = HEADER" by (simp add: startswith_def)
  then have "0x49 \<in> set (take 5 bs)" by (simp add: HEADER_def)
  then have "(0x49::byte) \<in> set bs" by (rule in_set_takeD)
  with assms show False by (auto simp: list_all_iff)
qed

lemma from_bits_ok: "binary bits \<Longrightarrow> \<exists>bs. from_bits bits = Inr bs"
  by (simp add: from_bits_binary)

lemma take_min_div_length:
  "take (min (length xs * 8) m div 8) xs = take (m div 8) xs"
proof (cases "length xs * 8 \<le> m")
  case True
  then have "length xs \<le> m div 8" using div_le_mono [of "length xs * 8" m 8] by simp
  with True show ?thesis by simp
next
  case False
  then show ?thesis by simp
qed

lemma from_bits_take_to_bits:
  "from_bits (take m (to_bits d)) = Inr (take (m div 8) d)"
  by (simp add: from_bits_binary binary_take from_bits_spec_take from_bits_spec_to_bits)

lemma wf_image_rows:
  "map length px' = map length px \<Longrightarrow>
   list_all (\<lambda>row. length row = w) px' = list_all (\<lambda>row. length row = w) px"
  by (simp only: list_all_map_length)

lemma embed_result:
  assumes "fallback_embed img msg = Inr img'"
  obtains enc where "utf8_encode msg = Inr enc" and "length enc < 2 ^ 32"
    and "8 * (9 + length enc) \<le> capacity (width img) (height img)"
    and "img' = img\<lparr>pixels := embed_loop (pixels img) (row_major (width img) (height img)) (frame_bits enc)\<rparr>"
  using assms
  by (auto simp: fallback_embed_def frame_payload_def int_to_bytes_def frame_bits_def Let_def
           split: sum.splits if_splits)

lemma extract_unwritten:
  assumes "wf_image img"
    and "list_all (list_all (\<lambda>p. even (uint (red p)) \<and> even (uint (green p)) \<and> even (uint (blue p))))
           (pixels img)"
  shows "fallback_extract img = Inr []"
proof -
  let ?bits = "read_loop (pixels img) (row_major (width img) (height img))"
  have z: "list_all (\<lambda>b. b = 0) ?bits"
    using in_range_row_major [OF assms(1)] assms(2) by (rule read_loop_lsb_zero)
  then have zt: "list_all (\<lambda>b. b = 0) (take 72 ?bits)"
    by (auto simp: list_all_iff dest: in_set_takeD)
  have "from_bits (take 72 ?bits) = Inr (from_bits_spec (take 72 ?bits))"
    by (simp add: from_bits_binary binary_take)
  moreover have "\<not> startswith (from_bits_spec (take 72 ?bits)) HEADER"
    using zt by (intro not_startswith_zeros from_bits_spec_zeros)
  ultimately show ?thesis by (simp add: fallback_extract_def Let_def)
qed

lemma extract_after_embed:
  assumes "wf_image img" and "utf8_encode msg = Inr enc" and "length enc < 2 ^ 32"
    and "8 * (9 + length enc) \<le> capacity (width img) (height img)"
  shows "fallback_extract
           (img\<lparr>pixels := embed_loop (pixels img) (row_major (width img) (height img)) (frame_bits enc)\<rparr>) =
         Inr msg"
proof -
  let ?img' = "img\<lparr>pixels := embed_loop (pixels img) (row_major (width img) (height img)) (frame_bits enc)\<rparr>"
  have "read_loop (pixels ?img') (row_major (width ?img') (height ?img')) =
        frame_bits enc @ drop (length (frame_bits enc)) (read_loop (pixels img) (row_major (width img) (height img)))"
    using assms(1,4) by (simp add: read_after_embed frame_bits_def del: to_bits_append)
  moreover note assms(3)
  moreover have "utf8_decode enc = Some msg"
    using assms(2) by (rule utf8_decode_encode_helper)
  ultimately show ?thesis by (rule extract_framed)
qed

lemma extract_total: "\<exists>s. fallback_extract img = Inr s"
  by (simp add: fallback_extract_def Let_def from_bits_binary binary_take binary_drop
           split: option.split)

lemma embed_shape:
  assumes "fallback_embed img msg = Inr img'" and "wf_image img"
  shows "wf_image img' \<and> width img' = width img \<and> height img' = height img \<and>
         map (map alpha) (pixels img') = map (map alpha) (pixels img)"
proof -
  obtain enc where img': "img' = img\<lparr>pixels := embed_loop (pixels img) (row_major (width img) (height img)) (frame_bits enc)\<rparr>"
    using assms(1) by (rule embed_result)
  have "wf_image img'"
    using assms(2) wf_image_rows [OF row_length_embed_loop]
    by (simp add: img' wf_image_def)
  then show ?thesis by (simp add: img' alpha_embed_loop)
qed

subsection \<open>Properties of the fallback codec\<close>

text \<open>C1 (round trip): on a well-formed image whose capacity holds the frame of the
  UTF-8 encoding of the message, \<open>_fallback_encode\<close> succeeds and
  \<open>_fallback_decode\<close> of the resulting image returns the message.\<close>

theorem fallback_roundtrip:
  assumes "wf_image img" and "utf8_encode msg = Inr enc" and "length enc < 2 ^ 32"
    and "8 * (9 + length enc) \<le> capacity (width img) (height img)"
  shows "\<exists>img'. fallback_embed img msg = Inr img' \<and> fallback_extract img' = Inr msg"
  using embed_ok [OF assms(2-4)] extract_after_embed [OF assms] by blast

text \<open>C2 (safety): for a message that encodes, \<open>_fallback_encode\<close> succeeds exactly
  when the frame of \<open>9 + len(encoded)\<close> bytes fits the capacity of
  \<open>width * height * 3\<close> bits, and otherwise raises \<open>SteganographyError\<close> before writing
  any pixel.\<close>

theorem embed_capacity_boundary:
  assumes "utf8_encode msg = Inr enc" and "length enc < 2 ^ 32"
  shows "((\<exists>img'. fallback_embed img msg = Inr img') \<longleftrightarrow>
            8 * (9 + length enc) \<le> capacity (width img) (height img)) \<and>
         (capacity (width img) (height img) < 8 * (9 + length enc) \<longrightarrow>
            fallback_embed img msg =
              Inl (SteganographyError ''Message is too large for this image in fallback mode.''))"
proof (cases "8 * (9 + length enc) \<le> capacity (width img) (height img)")
  case True
  then show ?thesis using embed_ok [OF assms True] by simp
next
  case False
  then show ?thesis using embed_too_large [OF assms] by simp
qed

text \<open>C9 (functional): when the low bits read back hold only the first \<open>n \<ge> 72\<close>
  bits of a frame (the carrier was cropped after the header), \<open>_fallback_decode\<close> does
  not report a missing message: it decodes the \<open>(n - 72) div 8\<close> body bytes that are
  present, returning the empty string only when that prefix is not valid UTF-8.\<close>

theorem extract_truncated:
  assumes "read_loop (pixels img) (row_major (width img) (height img)) = take n (frame_bits enc)"
    and "72 \<le> n" and "length enc < 2 ^ 32"
  shows "fallback_extract img = Inr (case utf8_decode (take ((n - 72) div 8) enc) of None \<Rightarrow> [] | Some m \<Rightarrow> m)"
proof -
  let ?hdr = "HEADER @ be_digits 4 (length enc)"
  have fb: "frame_bits enc = to_bits ?hdr @ to_bits enc"
    by (simp add: frame_bits_def)
  have split: "take n (frame_bits enc) = to_bits ?hdr @ take (n - 72) (to_bits enc)"
    using assms(2) by (simp add: fb del: to_bits_append)
  have hb: "from_bits (take 72 (take n (frame_bits enc))) = Inr ?hdr"
    unfolding split by (simp add: from_bits_of_to_bits del: to_bits_append)
  have "take (length enc * 8) (drop 72 (take n (frame_bits enc))) =
        take (min (length enc * 8) (n - 72)) (to_bits enc)"
    unfolding split by (simp add: min.commute del: to_bits_append)
  then have body: "from_bits (take (length enc * 8) (drop 72 (take n (frame_bits enc)))) =
                   Inr (take ((n - 72) div 8) enc)"
    by (simp only: from_bits_take_to_bits take_min_div_length)
  have len: "int_from_bytes (take 4 (drop 5 ?hdr)) = length enc"
    using assms(3) by (simp add: int_from_int_to_bytes)
  have "startswith ?hdr HEADER" by (rule startswith_append)
  from assms(1) hb this len body show ?thesis by (rule extract_parsed)
qed

text \<open>C19 (error): a message that \<open>str.encode("utf-8")\<close> rejects makes
  \<open>_fallback_encode\<close> raise \<open>UnicodeEncodeError\<close>, before the capacity check.\<close>

theorem embed_encode_error:
  "utf8_encode msg = Inl e \<Longrightarrow> fallback_embed img msg = Inl UnicodeEncodeError"
  by (simp add: fallback_embed_def utf8_encode_error_value)

end
