(* ===== verification/Paths.thy ===== *)
theory Paths
  imports Prelude
begin

text \<open>
  The path helpers of \<^verbatim>\<open>src/src/image_steganography/utils.py\<close> over a model of
  \<open>pathlib.PurePosixPath\<close>. \<open>Path(s)\<close> is \<open>parse_path s\<close>: CPython's
  \<open>splitroot\<close> (no root, \<open>"/"\<close>, or exactly two leading slashes kept as \<open>"//"\<close>)
  and the remaining text split at \<open>"/"\<close> with empty and \<open>"."\<close> components dropped;
  \<open>str(p)\<close> and \<open>p.as_posix()\<close> are \<open>path_str\<close>. \<open>name\<close>, \<open>suffix\<close> and
  \<open>with_suffix\<close> follow CPython 3.12 (the last dot of the name starts the suffix unless
  it is the first or the last character). A \<open>str | Path\<close> argument is a
  \<open>pathlike\<close>. \<open>str.lower()\<close> is modelled on ASCII letters only; this gives the
  answer of Python's Unicode lowering for the comparisons the code makes, with
  \<open>".png"\<close> and the members of \<open>LOSSLESS_EXTS\<close>, because no other character lowers
  to a single one of their letters. Path characters are Isabelle's 8-bit \<open>char\<close>.
  The lemmas: \<open>ensure_png\<close> always yields a \<open>.png\<close> suffix and is idempotent, and
  printing a parsed path and parsing it again gives the same path.
\<close>

record pypath =
  path_root :: string
  path_tail :: "string list"

datatype pathlike = PStr string | PObj pypath

fun split_on :: "char \<Rightarrow> string \<Rightarrow> string list" where
  "split_on c [] = [[]]"
| "split_on c (x # xs) =
     (if x = c then [] # split_on c xs
      else (case split_on c xs of w # ws \<Rightarrow> (x # w) # ws | [] \<Rightarrow> [[x]]))"

definition splitroot :: "string \<Rightarrow> string \<times> string" where
  "splitroot p =
     (if take 1 p \<noteq> ''/'' then ([], p)
      else if take 1 (drop 1 p) \<noteq> ''/'' \<or> take 1 (drop 2 p) = ''/''
      then (''/'', dropWhile (\<lambda>c. c = CHR ''/'') p)
      else (''//'', drop 2 p))"

definition parse_path :: "string \<Rightarrow> pypath" where
  "parse_path s =
     (case splitroot s of
        (root, rel) \<Rightarrow>
          \<lparr>path_root = root, path_tail = filter (\<lambda>x. x \<noteq> [] \<and> x \<noteq> ''.'') (split_on (CHR ''/'') rel)\<rparr>)"

primrec as_path :: "pathlike \<Rightarrow> pypath" where
  "as_path (PStr s) = parse_path s"
| "as_path (PObj p) = p"

fun join_parts :: "string list \<Rightarrow> string" where
  "join_parts [] = []"
| "join_parts [x] = x"
| "join_parts (x # y # ys) = x @ ''/'' @ join_parts (y # ys)"

definition path_str :: "pypath \<Rightarrow> string" where
  "path_str p = (let s = path_root p @ join_parts (path_tail p) in if s = [] then ''.'' else s)"

definition name :: "pypath \<Rightarrow> string" where
  "name p = (if path_tail p = [] then [] else last (path_tail p))"

text \<open>\<open>str.rfind\<close>: the index of the last occurrence, or \<open>-1\<close>.\<close>

primrec rfind :: "char \<Rightarrow> string \<Rightarrow> int" where
  "rfind c [] = -1"
| "rfind c (x # xs) = (let r = rfind c xs in if 0 \<le> r then r + 1 else if x = c then 0 else -1)"

definition suffix :: "pypath \<Rightarrow> string" where
  "suffix p =
     (let nm = name p; i = rfind (CHR ''.'') nm
      in if 0 < i \<and> i < int (length nm) - 1 then drop (nat i) nm else [])"

definition path_repr :: "pypath \<Rightarrow> string" where
  "path_repr p = ''PosixPath('' @ [CHR 0x27] @ path_str p @ [CHR 0x27] @ '')''"

definition with_suffix :: "pypath \<Rightarrow> string \<Rightarrow> py_error + pypath" where
  "with_suffix p sfx =
     (if CHR ''/'' \<in> set sfx \<or> (sfx \<noteq> [] \<and> take 1 sfx \<noteq> ''.'') \<or> sfx = ''.''
      then Inl (ValueError (''Invalid suffix '' @ [CHR 0x27] @ sfx @ [CHR 0x27]))
      else if name p = [] then Inl (ValueError (path_repr p @ '' has an empty name''))
      else
        (let nm = name p; old = suffix p;
             nm' = (if old = [] then nm @ sfx else take (length nm - length old) nm @ sfx)
         in Inr (p\<lparr>path_tail := butlast (path_tail p) @ [nm']\<rparr>)))"

definition with_name :: "pypath \<Rightarrow> string \<Rightarrow> py_error + pypath" where
  "with_name p nm =
     (if name p = [] then Inl (ValueError (path_repr p @ '' has an empty name''))
      else if nm = [] \<or> CHR ''/'' \<in> set nm \<or> nm = ''.''
      then Inl (ValueError (''Invalid name '' @ [CHR 0x27] @ nm @ [CHR 0x27]))
      else Inr (p\<lparr>path_tail := butlast (path_tail p) @ [nm]\<rparr>))"

definition ascii_lower :: "string \<Rightarrow> string" where
  "ascii_lower s = map (\<lambda>c. let n = of_char c :: nat in if 65 \<le> n \<and> n \<le> 90 then char_of (n + 32) else c) s"

definition LOSSLESS_EXTS :: "string set" where
  "LOSSLESS_EXTS = {''.png'', ''.bmp'', ''.tiff'', ''.tif''}"

definition ensure_png :: "pathlike \<Rightarrow> py_error + pypath" where
  "ensure_png path =
     (let p = as_path path in
      if ascii_lower (suffix p) \<noteq> ''.png'' then with_suffix p ''.png'' else Inr p)"

definition is_lossless_image :: "pathlike \<Rightarrow> bool" where
  "is_lossless_image path \<longleftrightarrow> ascii_lower (suffix (as_path path)) \<in> LOSSLESS_EXTS"

text \<open>The paths \<open>Path(...)\<close> can produce: a root CPython keeps and components that are
  neither empty nor \<open>"."\<close> and hold no separator.\<close>

definition valid_part :: "string \<Rightarrow> bool" where
  "valid_part x \<longleftrightarrow> x \<noteq> [] \<and> x \<noteq> ''.'' \<and> CHR ''/'' \<notin> set x"

definition valid_path :: "pypath \<Rightarrow> bool" where
  "valid_path p \<longleftrightarrow> path_root p \<in> {[], ''/'', ''//''} \<and> list_all valid_part (path_tail p)"

lemmas path_defs = parse_path_def splitroot_def path_str_def name_def suffix_def with_suffix_def
  ensure_png_def ascii_lower_def Let_def

subsection \<open>Splitting and joining\<close>

lemma split_on_no_sep: "c \<notin> set w \<Longrightarrow> split_on c w = [w]"
  by (induction w) auto

lemma split_on_append_sep: "c \<notin> set w \<Longrightarrow> split_on c (w @ c # rest) = w # split_on c rest"
proof (induction w)
  case Nil
  then show ?case by simp
next
  case (Cons x w)
  then show ?case by auto
qed

lemma split_on_parts: "x \<in> set (split_on c s) \<Longrightarrow> c \<notin> set x"
proof (induction c s arbitrary: x rule: split_on.induct)
  case (1 c)
  then show ?case by simp
next
  case (2 c y ys)
  then show ?case by (auto split: if_splits list.splits)
qed

lemma join_parts_Cons: "join_parts (x # xs) = x @ (if xs = [] then [] else ''/'' @ join_parts xs)"
  by (cases xs) auto

lemma split_join: "list_all (\<lambda>x. CHR ''/'' \<notin> set x) xs \<Longrightarrow> xs \<noteq> [] \<Longrightarrow>
  split_on (CHR ''/'') (join_parts xs) = xs"
proof (induction xs rule: join_parts.induct)
  case 1
  then show ?case by simp
next
  case (2 x)
  then show ?case by (simp add: split_on_no_sep)
next
  case (3 x y ys)
  then have "split_on (CHR ''/'') (x @ CHR ''/'' # join_parts (y # ys)) = x # split_on (CHR ''/'') (join_parts (y # ys))"
    by (intro split_on_append_sep) simp
  with 3 show ?case by simp
qed

lemma valid_parse_path: "valid_path (parse_path s)"
  by (auto simp: valid_path_def valid_part_def parse_path_def splitroot_def list_all_iff
           dest: split_on_parts split: if_splits)

subsection \<open>\<open>str.rfind\<close> and the suffix\<close>

lemma rfind_ge: "-1 \<le> rfind c s"
  by (induction s) (auto simp: Let_def)

lemma rfind_append:
  "rfind c (xs @ ys) = (if 0 \<le> rfind c ys then int (length xs) + rfind c ys else rfind c xs)"
proof (induction xs)
  case Nil
  show ?case using rfind_ge [of c ys] by simp
next
  case (Cons x xs)
  then show ?case by (auto simp: Let_def)
qed

lemma rfind_png: "rfind (CHR ''.'') (pre @ ''.png'') = int (length pre)"
  by (simp add: rfind_append)

lemma suffix_png: "pre \<noteq> [] \<Longrightarrow> path_tail p = ts @ [pre @ ''.png''] \<Longrightarrow> suffix p = ''.png''"
  by (simp add: suffix_def name_def rfind_png)

lemma suffix_shorter: "suffix p \<noteq> [] \<Longrightarrow> length (suffix p) < length (name p)"
  by (auto simp: suffix_def Let_def split: if_splits)


subsection \<open>Printing and parsing\<close>

lemma valid_part_hd: "valid_part x \<Longrightarrow> take 1 (x @ rest) \<noteq> ''/''"
  by (cases x) (auto simp: valid_part_def)

lemma filter_valid_parts: "list_all valid_part xs \<Longrightarrow> filter (\<lambda>x. x \<noteq> [] \<and> x \<noteq> ''.'') xs = xs"
  by (induction xs) (auto simp: valid_part_def)

lemma parse_join:
  assumes "list_all valid_part (x # xs)"
  shows "filter (\<lambda>x. x \<noteq> [] \<and> x \<noteq> ''.'') (split_on (CHR ''/'') (join_parts (x # xs))) = x # xs"
proof -
  have "list_all (\<lambda>x. CHR ''/'' \<notin> set x) (x # xs)"
    using assms by (auto simp: list_all_iff valid_part_def)
  then have "split_on (CHR ''/'') (join_parts (x # xs)) = x # xs"
    by (rule split_join) simp
  then show ?thesis using filter_valid_parts [OF assms] by simp
qed

lemma join_parts_nonempty: "valid_part x \<Longrightarrow> join_parts (x # xs) \<noteq> []"
  by (simp add: join_parts_Cons valid_part_def)

lemma parse_path_str: "valid_path p \<Longrightarrow> parse_path (path_str p) = p"
proof (cases "path_tail p")
  case Nil
  assume "valid_path p"
  then consider "path_root p = []" | "path_root p = ''/''" | "path_root p = ''//''"
    by (auto simp: valid_path_def)
  then show ?thesis
    by cases (simp_all add: Nil path_str_def parse_path_def splitroot_def)
next
  case (Cons x xs)
  assume v: "valid_path p"
  then have parts: "list_all valid_part (x # xs)" and x: "valid_part x"
    using Cons by (simp_all add: valid_path_def)
  let ?j = "join_parts (x # xs)"
  have j: "?j = x @ (if xs = [] then [] else ''/'' @ join_parts xs)"
    by (rule join_parts_Cons)
  have hd: "take 1 ?j \<noteq> ''/''" unfolding j using x by (rule valid_part_hd)
  have ne: "?j \<noteq> []" using x by (rule join_parts_nonempty)
  have drop: "dropWhile (\<lambda>c. c = CHR ''/'') (CHR ''/'' # ?j) = ?j"
    using hd ne by (cases ?j) auto
  from v consider "path_root p = []" | "path_root p = ''/''" | "path_root p = ''//''"
    by (auto simp: valid_path_def)
  then show ?thesis
  proof cases
    case 1
    then show ?thesis using hd ne parse_join [OF parts]
      by (simp add: Cons path_str_def parse_path_def splitroot_def)
  next
    case 2
    then show ?thesis using hd ne drop parse_join [OF parts]
      by (simp add: Cons path_str_def parse_path_def splitroot_def)
  next
    case 3
    then show ?thesis using hd ne parse_join [OF parts]
      by (simp add: Cons path_str_def parse_path_def splitroot_def)
  qed
qed

subsection \<open>\<open>with_suffix(".png")\<close>\<close>

lemma with_suffix_png:
  assumes "with_suffix p ''.png'' = Inr q"
  obtains pre where "pre \<noteq> []" and "CHR ''/'' \<notin> set pre \<or> \<not> valid_path p"
    and "q = p\<lparr>path_tail := butlast (path_tail p) @ [pre @ ''.png'']\<rparr>"
proof -
  have nm: "name p \<noteq> []" and
    q: "q = p\<lparr>path_tail := butlast (path_tail p) @
            [if suffix p = [] then name p @ ''.png'' else take (length (name p) - length (suffix p)) (name p) @ ''.png'']\<rparr>"
    using assms by (auto simp: with_suffix_def Let_def split: if_splits)
  let ?pre = "if suffix p = [] then name p else take (length (name p) - length (suffix p)) (name p)"
  have "?pre \<noteq> []" using nm suffix_shorter [of p] by auto
  moreover have "CHR ''/'' \<notin> set ?pre \<or> \<not> valid_path p"
  proof (cases "valid_path p")
    case True
    then have "CHR ''/'' \<notin> set (name p)"
      using nm by (auto simp: valid_path_def name_def list_all_iff valid_part_def)
    then show ?thesis by (auto dest: in_set_takeD)
  qed simp
  moreover have "q = p\<lparr>path_tail := butlast (path_tail p) @ [?pre @ ''.png'']\<rparr>"
    using q by simp
  ultimately show ?thesis by (rule that)
qed

lemma ascii_lower_png [simp]: "ascii_lower ''.png'' = ''.png''"
  by (simp add: ascii_lower_def)

lemma ensure_png_cases:
  assumes "ensure_png x = Inr q"
  shows "q = as_path x \<and> ascii_lower (suffix q) = ''.png'' \<or>
         (\<exists>pre. pre \<noteq> [] \<and> (CHR ''/'' \<notin> set pre \<or> \<not> valid_path (as_path x)) \<and>
                q = (as_path x)\<lparr>path_tail := butlast (path_tail (as_path x)) @ [pre @ ''.png'']\<rparr>)"
proof (cases "ascii_lower (suffix (as_path x)) = ''.png''")
  case True
  then show ?thesis using assms by (simp add: ensure_png_def)
next
  case False
  then have "with_suffix (as_path x) ''.png'' = Inr q" using assms by (simp add: ensure_png_def)
  then obtain pre where "pre \<noteq> []" and "CHR ''/'' \<notin> set pre \<or> \<not> valid_path (as_path x)"
    and "q = (as_path x)\<lparr>path_tail := butlast (path_tail (as_path x)) @ [pre @ ''.png'']\<rparr>"
    by (rule with_suffix_png)
  then show ?thesis by blast
qed

lemma ensure_png_suffix_png: "ensure_png x = Inr q \<Longrightarrow> ascii_lower (suffix q) = ''.png''"
  by (drule ensure_png_cases) (auto simp: suffix_png)

lemma valid_path_butlast:
  "valid_path p \<Longrightarrow> valid_part nm \<Longrightarrow> valid_path (p\<lparr>path_tail := butlast (path_tail p) @ [nm]\<rparr>)"
  by (auto simp: valid_path_def list_all_iff dest: in_set_butlastD)

lemma valid_part_png: "pre \<noteq> [] \<Longrightarrow> CHR ''/'' \<notin> set pre \<Longrightarrow> valid_part (pre @ ''.png'')"
  by (auto simp: valid_part_def)

lemma ensure_png_valid: "valid_path (as_path x) \<Longrightarrow> ensure_png x = Inr q \<Longrightarrow> valid_path q"
  by (drule ensure_png_cases) (auto intro: valid_path_butlast valid_part_png)


subsection \<open>Properties of the path helpers\<close>

text \<open>C24 (functional): whenever \<open>ensure_png\<close> returns a path, its suffix is
  \<open>.png\<close> up to case, so \<open>is_lossless_image\<close> accepts it.\<close>

theorem ensure_png_suffix:
  "ensure_png x = Inr q \<Longrightarrow> ascii_lower (suffix q) = ''.png'' \<and> is_lossless_image (PObj q)"
  by (simp add: ensure_png_suffix_png is_lossless_image_def LOSSLESS_EXTS_def)

theorem ensure_png_suffix_witness:
  "ensure_png (PStr ''shots/photo.jpg'') = Inr (parse_path ''shots/photo.png'') \<and>
   ascii_lower (suffix (parse_path ''shots/photo.png'')) = ''.png'' \<and>
   is_lossless_image (PObj (parse_path ''shots/photo.png''))"
proof -
  have e: "ensure_png (PStr ''shots/photo.jpg'') = Inr (parse_path ''shots/photo.png'')"
    by code_simp
  from e ensure_png_suffix [OF e] show ?thesis by simp
qed

text \<open>C25 (roundtrip): \<open>str(Path(s))\<close> parsed again is \<open>Path(s)\<close>: the printed form
  of a path names the same path.\<close>

theorem path_roundtrip: "parse_path (path_str (parse_path s)) = parse_path s"
  by (rule parse_path_str [OF valid_parse_path])

text \<open>C26 (equivalence): \<open>ensure_png\<close> is idempotent through the text form: the path
  the Save dialog shows (\<open>ensure_png(path).as_posix()\<close>) is mapped by
  \<open>ensure_png\<close> to itself when the encoder receives it back.\<close>

theorem ensure_png_idempotent:
  "ensure_png (PStr s) = Inr q \<Longrightarrow> ensure_png (PStr (path_str q)) = Inr q"
proof -
  assume e: "ensure_png (PStr s) = Inr q"
  have "valid_path (as_path (PStr s))" by (simp add: valid_parse_path)
  then have "valid_path q" using e by (rule ensure_png_valid)
  then have "parse_path (path_str q) = q" by (rule parse_path_str)
  with ensure_png_suffix_png [OF e] show ?thesis by (simp add: ensure_png_def)
qed

theorem ensure_png_idempotent_witness:
  "ensure_png (PStr ''out//stego.jpeg'') = Inr (parse_path ''out/stego.png'') \<and>
   ensure_png (PStr (path_str (parse_path ''out/stego.png''))) = Inr (parse_path ''out/stego.png'')"
proof -
  have e: "ensure_png (PStr ''out//stego.jpeg'') = Inr (parse_path ''out/stego.png'')"
    by code_simp
  from e ensure_png_idempotent [OF e] show ?thesis by simp
qed

text \<open>C27 (error): \<open>ensure_png\<close> raises (\<open>ValueError: ... has an empty name\<close> from
  \<open>with_suffix\<close>) exactly on a path with no final component, such as \<open>""\<close>,
  \<open>"."\<close> or \<open>"/"\<close>.\<close>

theorem ensure_png_error: "(\<exists>e. ensure_png x = Inl e) \<longleftrightarrow> name (as_path x) = []"
proof (cases "ascii_lower (suffix (as_path x)) = ''.png''")
  case True
  then have "suffix (as_path x) \<noteq> []" by (auto simp: ascii_lower_def)
  then have "name (as_path x) \<noteq> []" using suffix_shorter by fastforce
  with True show ?thesis by (simp add: ensure_png_def)
next
  case False
  then show ?thesis by (simp add: ensure_png_def with_suffix_def Let_def)
qed

text \<open>What \<open>ensure_png\<close> does to some names: a bare \<open>".png"\<close>
  (a dot file, so no suffix) becomes \<open>".png.png"\<close>; the last suffix alone is
  replaced; an upper-case \<open>.PNG\<close> is kept; the empty path raises \<open>ValueError\<close>.\<close>

theorem ensure_png_examples:
  "ensure_png (PStr ''.png'') = Inr (parse_path ''.png.png'') \<and>
   ensure_png (PStr ''archive.tar.gz'') = Inr (parse_path ''archive.tar.png'') \<and>
   ensure_png (PStr ''photo.PNG'') = Inr (parse_path ''photo.PNG'') \<and>
   ensure_png (PStr []) = Inl (ValueError (''PosixPath('' @ [CHR 0x27] @ ''.'' @ [CHR 0x27] @ '') has an empty name''))"
  by code_simp




end
