(* ===== verification/Api.thy ===== *)
theory Api
  imports Codec Paths
begin

text \<open>
  The file API of \<^verbatim>\<open>src/src/image_steganography/core.py\<close> in both configurations:
  \<open>lsb\<close> is an argument, \<open>None\<close> when the optional \<^verbatim>\<open>stegano\<close> package is missing
  (both calls then go to the fallback codec) and otherwise the record of the two library
  calls the code makes. The file system is a \<open>store\<close>: a map from parsed paths to
  entries, an image file (the RGBA grid PIL decodes it to), another file, or a
  directory. \<open>exists\<close> is \<open>Path.exists()\<close>; \<open>image_open\<close> is
  \<open>Image.open(p).convert("RGBA")\<close>, raising \<open>FileNotFoundError\<close>,
  \<open>IsADirectoryError\<close> or PIL's \<open>UnidentifiedImageError\<close> (all \<open>OSError\<close>);
  \<open>image_save\<close> is \<open>img.save(out)\<close>, which needs the parent directory and refuses
  to overwrite a directory. \<open>encode_message_to_image\<close> returns the store after the call
  together with the result or the exception, so that what an error leaves behind is
  part of the statement. The lemmas: the round trip through the store, the store is
  unchanged whenever the call raises, and only the returned path is written.
\<close>

datatype fentry = ImageFile image | OtherFile | Directory

type_synonym store = "pypath \<Rightarrow> fentry option"

definition exists :: "store \<Rightarrow> pypath \<Rightarrow> bool" where
  "exists fs p \<longleftrightarrow> fs p \<noteq> None"

definition quote :: "string \<Rightarrow> string" where
  "quote s = [CHR 0x27] @ s @ [CHR 0x27]"

definition parent :: "pypath \<Rightarrow> pypath" where
  "parent p = p\<lparr>path_tail := butlast (path_tail p)\<rparr>"

definition image_open :: "store \<Rightarrow> pypath \<Rightarrow> py_error + image" where
  "image_open fs p =
     (case fs p of
        None \<Rightarrow> Inl (OSError (''[Errno 2] No such file or directory: '' @ quote (path_str p)))
      | Some Directory \<Rightarrow> Inl (OSError (''[Errno 21] Is a directory: '' @ quote (path_str p)))
      | Some OtherFile \<Rightarrow> Inl (OSError (''cannot identify image file '' @ quote (path_str p)))
      | Some (ImageFile img) \<Rightarrow> Inr img)"

text \<open>The calls that may write take the store and return it after the call beside their
  result, so that what a raised exception leaves behind is part of the model.
  \<open>img.save\<close> opens the target first, so a save that raises has written nothing.\<close>

definition image_save :: "store \<Rightarrow> pypath \<Rightarrow> image \<Rightarrow> store \<times> (py_error + unit)" where
  "image_save fs p img =
     (if fs (parent p) \<noteq> Some Directory
      then (fs, Inl (OSError (''[Errno 2] No such file or directory: '' @ quote (path_str p))))
      else if fs p = Some Directory
      then (fs, Inl (OSError (''[Errno 21] Is a directory: '' @ quote (path_str p))))
      else (fs(p \<mapsto> ImageFile img), Inr ()))"

definition fallback_encode :: "store \<Rightarrow> pypath \<Rightarrow> pystr \<Rightarrow> pypath \<Rightarrow> store \<times> (py_error + unit)" where
  "fallback_encode fs cover message out =
     (case image_open fs cover of
        Inl e \<Rightarrow> (fs, Inl e)
      | Inr img \<Rightarrow>
          (case fallback_embed img message of
             Inl e \<Rightarrow> (fs, Inl e)
           | Inr img' \<Rightarrow> image_save fs out img'))"

definition fallback_decode :: "store \<Rightarrow> pypath \<Rightarrow> py_error + pystr" where
  "fallback_decode fs stego =
     (case image_open fs stego of Inl e \<Rightarrow> Inl e | Inr img \<Rightarrow> fallback_extract img)"

text \<open>The optional backend: \<open>lsb.hide(str(cover), message)\<close> reads the cover and returns
  the stego image (or raises), \<open>lsb.reveal(str(img))\<close> returns the hidden text or
  \<open>None\<close> (or raises). \<^verbatim>\<open>stegano\<close> is a third-party library, so the model takes it as
  a parameter; \<open>None\<close> is the configuration where its import failed.\<close>

record lsb_backend =
  hide :: "store \<Rightarrow> string \<Rightarrow> pystr \<Rightarrow> py_error + image"
  reveal :: "store \<Rightarrow> string \<Rightarrow> py_error + pystr option"

definition stegano_encode ::
  "lsb_backend \<Rightarrow> store \<Rightarrow> pypath \<Rightarrow> pystr \<Rightarrow> pypath \<Rightarrow> store \<times> (py_error + unit)" where
  "stegano_encode b fs cover message out =
     (case hide b fs (path_str cover) message of
        Inl e \<Rightarrow> (fs, Inl e)
      | Inr secret \<Rightarrow> image_save fs out secret)"

definition backend_encode ::
  "lsb_backend option \<Rightarrow> store \<Rightarrow> pypath \<Rightarrow> pystr \<Rightarrow> pypath \<Rightarrow> store \<times> (py_error + unit)" where
  "backend_encode lsb fs cover message out =
     (case lsb of
        None \<Rightarrow> fallback_encode fs cover message out
      | Some b \<Rightarrow> stegano_encode b fs cover message out)"

definition backend_decode :: "lsb_backend option \<Rightarrow> store \<Rightarrow> pypath \<Rightarrow> py_error + pystr option" where
  "backend_decode lsb fs img =
     (case lsb of
        None \<Rightarrow> (case fallback_decode fs img of Inl e \<Rightarrow> Inl e | Inr msg \<Rightarrow> Inr (Some msg))
      | Some b \<Rightarrow> reveal b fs (path_str img))"

definition encode_message_to_image ::
  "lsb_backend option \<Rightarrow> store \<Rightarrow> pathlike \<Rightarrow> pystr \<Rightarrow> pathlike \<Rightarrow> store \<times> (py_error + pypath)" where
  "encode_message_to_image lsb fs cover_image message output_path =
     (let cover = as_path cover_image in
      if \<not> exists fs cover
      then (fs, Inl (SteganographyError (''Cover image not found: '' @ path_str cover)))
      else if message = [] then (fs, Inl (SteganographyError ''Message must not be empty''))
      else
        (case ensure_png output_path of
           Inl e \<Rightarrow> (fs, Inl e)
         | Inr out \<Rightarrow>
             (case backend_encode lsb fs cover message out of
                (fs', Inl e) \<Rightarrow> (fs', Inl e)
              | (fs', Inr _) \<Rightarrow> (fs', Inr out))))"

definition decode_message_from_image :: "lsb_backend option \<Rightarrow> store \<Rightarrow> pathlike \<Rightarrow> py_error + pystr" where
  "decode_message_from_image lsb fs stego_image =
     (let img = as_path stego_image in
      if \<not> exists fs img then Inl (SteganographyError (''Image not found: '' @ path_str img))
      else
        (case backend_decode lsb fs img of
           Inl e \<Rightarrow> Inl e
         | Inr None \<Rightarrow> Inl (SteganographyError ''No hidden message found or unable to decode.'')
         | Inr (Some msg) \<Rightarrow>
             if msg = [] then Inl (SteganographyError ''No hidden message found or unable to decode.'')
             else Inr msg))"

text \<open>What a successful backend call wrote: the fallback's image computed from the cover
  file, or the image \<open>lsb.hide\<close> returned.\<close>

definition produced_by :: "lsb_backend option \<Rightarrow> store \<Rightarrow> pypath \<Rightarrow> pystr \<Rightarrow> image \<Rightarrow> bool" where
  "produced_by lsb fs cover m img' \<longleftrightarrow>
     (case lsb of
        None \<Rightarrow> (\<exists>img. fs cover = Some (ImageFile img) \<and> fallback_embed img m = Inr img')
      | Some b \<Rightarrow> hide b fs (path_str cover) m = Inr img')"

lemmas api_defs = encode_message_to_image_def decode_message_from_image_def fallback_encode_def
  fallback_decode_def image_open_def image_save_def exists_def backend_encode_def backend_decode_def


subsection \<open>The result of a call\<close>

lemma image_open_ImageFile [simp]: "fs p = Some (ImageFile img) \<Longrightarrow> image_open fs p = Inr img"
  by (simp add: image_open_def)

lemma image_save_ok:
  "fs (parent p) = Some Directory \<Longrightarrow> fs p \<noteq> Some Directory \<Longrightarrow>
   image_save fs p img = (fs(p \<mapsto> ImageFile img), Inr ())"
  by (simp add: image_save_def)

lemma image_save_result: "image_save fs p img = (fs', Inr u) \<Longrightarrow> fs' = fs(p \<mapsto> ImageFile img)"
  by (simp add: image_save_def split: if_splits)

lemma image_save_error: "image_save fs p img = (fs', Inl e) \<Longrightarrow> fs' = fs"
  by (simp add: image_save_def split: if_splits)

text \<open>The backend call writes only in its last step, so when it raises the store is as
  it was.\<close>

lemma backend_encode_error:
  "backend_encode lsb fs cover m q = (fs', Inl e) \<Longrightarrow> fs' = fs"
  by (auto simp: backend_encode_def fallback_encode_def stegano_encode_def
           split: option.splits sum.splits dest: image_save_error)

lemma encode_ok:
  assumes "fs (as_path c) = Some (ImageFile img)" and "message \<noteq> []" and "ensure_png out = Inr q"
    and "fallback_embed img message = Inr img'"
    and "fs (parent q) = Some Directory" and "fs q \<noteq> Some Directory"
  shows "encode_message_to_image None fs c message out = (fs(q \<mapsto> ImageFile img'), Inr q)"
  using assms
  by (simp add: encode_message_to_image_def backend_encode_def fallback_encode_def exists_def image_save_ok)

lemma backend_encode_result:
  assumes "backend_encode lsb fs cover m q = (fs', Inr u)"
  obtains img' where "produced_by lsb fs cover m img'" and "fs' = fs(q \<mapsto> ImageFile img')"
proof (cases lsb)
  case None
  with assms that show ?thesis
    by (auto simp: backend_encode_def fallback_encode_def image_open_def produced_by_def
             split: option.splits fentry.splits sum.splits dest: image_save_result)
next
  case (Some b)
  with assms that show ?thesis
    by (auto simp: backend_encode_def stegano_encode_def produced_by_def split: sum.splits
             dest: image_save_result)
qed

lemma encode_cases:
  assumes "encode_message_to_image lsb fs c m out = (fs', r)"
  shows "(\<exists>e. r = Inl e \<and> fs' = fs) \<or>
         (\<exists>q img'. r = Inr q \<and> m \<noteq> [] \<and> ensure_png out = Inr q \<and> produced_by lsb fs (as_path c) m img' \<and>
            fs' = fs(q \<mapsto> ImageFile img'))"
proof (cases "exists fs (as_path c) \<and> m \<noteq> []")
  case False
  then show ?thesis using assms by (auto simp: encode_message_to_image_def Let_def split: if_splits)
next
  case True
  show ?thesis
  proof (cases "ensure_png out")
    case (Inl e)
    then have "fs' = fs \<and> r = Inl e" using assms True by (simp add: encode_message_to_image_def Let_def)
    then show ?thesis by blast
  next
    case (Inr q)
    obtain fs'' r'' where b: "backend_encode lsb fs (as_path c) m q = (fs'', r'')" by fastforce
    show ?thesis
    proof (cases r'')
      case (Inl e)
      with b have "fs'' = fs" by (simp add: backend_encode_error)
      with b Inl have "fs' = fs \<and> r = Inl e" using assms True \<open>ensure_png out = Inr q\<close>
        by (simp add: encode_message_to_image_def Let_def)
      then show ?thesis by blast
    next
      case (Inr u)
      with b have "backend_encode lsb fs (as_path c) m q = (fs'', Inr u)" by simp
      then obtain img' where "produced_by lsb fs (as_path c) m img'" and "fs'' = fs(q \<mapsto> ImageFile img')"
        by (rule backend_encode_result)
      moreover from assms True b Inr \<open>ensure_png out = Inr q\<close> \<open>fs'' = fs(q \<mapsto> ImageFile img')\<close>
      have "fs' = fs(q \<mapsto> ImageFile img') \<and> r = Inr q"
        by (simp add: encode_message_to_image_def Let_def)
      ultimately show ?thesis using \<open>ensure_png out = Inr q\<close> True by blast
    qed
  qed
qed

lemma decode_image:
  "fs (as_path s) = Some (ImageFile img) \<Longrightarrow>
   decode_message_from_image None fs s =
     (case fallback_extract img of
        Inl e \<Rightarrow> Inl e
      | Inr msg \<Rightarrow> if msg = [] then Inl (SteganographyError ''No hidden message found or unable to decode.'')
                  else Inr msg)"
  by (simp add: decode_message_from_image_def backend_decode_def fallback_decode_def exists_def
           split: sum.split)

subsection \<open>Properties of the file API\<close>

text \<open>C29 (round trip): with the cover an image file of enough capacity, a non-empty
  message that encodes, and an output whose \<open>ensure_png\<close> form lies in an existing
  directory, \<open>encode_message_to_image\<close> writes the stego image to that path and returns
  it, and \<open>decode_message_from_image\<close> on it returns the message.\<close>

theorem api_roundtrip:
  assumes "fs (as_path c) = Some (ImageFile img)" and "wf_image img" and "message \<noteq> []"
    and "utf8_encode message = Inr enc" and "length enc < 2 ^ 32"
    and "8 * (9 + length enc) \<le> capacity (width img) (height img)"
    and "ensure_png out = Inr q" and "fs (parent q) = Some Directory" and "fs q \<noteq> Some Directory"
  shows "\<exists>fs'. encode_message_to_image None fs c message out = (fs', Inr q) \<and>
              fs' q \<noteq> None \<and> decode_message_from_image None fs' (PObj q) = Inr message"
proof -
  let ?img' = "img\<lparr>pixels := embed_loop (pixels img) (row_major (width img) (height img)) (frame_bits enc)\<rparr>"
  have emb: "fallback_embed img message = Inr ?img'"
    using assms(4-6) by (rule embed_ok)
  have ext: "fallback_extract ?img' = Inr message"
    using assms(2,4-6) by (rule extract_after_embed)
  have enc: "encode_message_to_image None fs c message out = (fs(q \<mapsto> ImageFile ?img'), Inr q)"
    using assms(1,3,7) emb assms(8,9) by (rule encode_ok)
  have "decode_message_from_image None (fs(q \<mapsto> ImageFile ?img')) (PObj q) = Inr message"
    using ext assms(3) by (simp add: decode_image)
  with enc show ?thesis by simp
qed

text \<open>C30 (safety): \<open>encode_message_to_image\<close> is all-or-nothing with either backend:
  whenever it raises, the store is as before the call (the only write, \<open>save\<close>, is
  its last step).\<close>

theorem api_error_atomic: "encode_message_to_image lsb fs c m out = (fs', Inl e) \<Longrightarrow> fs' = fs"
  by (drule encode_cases) auto

text \<open>C31 (error): an empty message is always rejected with \<open>SteganographyError\<close>
  (\<open>Cover image not found\<close> when the cover is missing, \<open>Message must not be
  empty\<close> otherwise) and nothing is written.\<close>

theorem api_rejects_empty: "\<exists>s. encode_message_to_image lsb fs c [] out = (fs, Inl (SteganographyError s))"
  by (simp add: encode_message_to_image_def Let_def)

text \<open>C32 (safety): with either backend, a successful call writes exactly one path, the \<open>ensure_png\<close> form
  of the requested output, which has the \<open>.png\<close> suffix; it holds an image file and
  every other path of the store is unchanged (the cover included, unless it is that
  path).\<close>

theorem api_writes_only_output:
  assumes "encode_message_to_image lsb fs c m out = (fs', Inr q)"
  shows "ensure_png out = Inr q \<and> ascii_lower (suffix q) = ''.png'' \<and>
         (\<exists>img'. fs' q = Some (ImageFile img')) \<and> (\<forall>p. p \<noteq> q \<longrightarrow> fs' p = fs p)"
proof -
  from encode_cases [OF assms] obtain img' where "ensure_png out = Inr q"
    and "fs' = fs(q \<mapsto> ImageFile img')" by auto
  then show ?thesis by (simp add: ensure_png_suffix_png)
qed

text \<open>C18 (error): \<open>decode_message_from_image\<close> raises only \<open>SteganographyError\<close>
  (missing file, no message, undecodable body) or the \<open>OSError\<close> of
  \<open>Image.open\<close>; the codec under it never raises.\<close>

theorem decode_error_kinds:
  "decode_message_from_image None fs s = Inl e \<Longrightarrow> (\<exists>m. e = SteganographyError m) \<or> (\<exists>m. e = OSError m)"
proof -
  assume d: "decode_message_from_image None fs s = Inl e"
  show ?thesis
  proof (cases "fs (as_path s)")
    case None
    with d show ?thesis by (auto simp: decode_message_from_image_def exists_def Let_def)
  next
    case (Some f)
    show ?thesis
    proof (cases f)
      case (ImageFile img)
      obtain m where "fallback_extract img = Inr m" using extract_total by blast
      with d Some ImageFile show ?thesis by (auto simp: decode_image split: if_splits)
    next
      case OtherFile
      with d Some show ?thesis
        by (auto simp add: decode_message_from_image_def backend_decode_def fallback_decode_def image_open_def
                          exists_def Let_def)
    next
      case Directory
      with d Some show ?thesis
        by (auto simp add: decode_message_from_image_def backend_decode_def fallback_decode_def image_open_def
                          exists_def Let_def)
    qed
  qed
qed

text \<open>C8 (functional): \<open>decode_message_from_image\<close> on an image file whose red, green
  and blue values are all even (a cover never written, such as the black image of
  \<open>test_decode_missing\<close>) raises \<open>SteganographyError\<close>.\<close>

theorem decode_unwritten_raises:
  assumes "fs (as_path s) = Some (ImageFile img)" and "wf_image img"
    and "list_all (list_all (\<lambda>p. even (uint (red p)) \<and> even (uint (green p)) \<and> even (uint (blue p))))
           (pixels img)"
  shows "decode_message_from_image None fs s = Inl (SteganographyError ''No hidden message found or unable to decode.'')"
  using decode_image [of fs s img, OF assms(1)] extract_unwritten [OF assms(2,3)] by simp

text \<open>C33 (error): an empty cover path is \<open>Path("")\<close>, the current directory, which
  exists; so a non-empty message does not get \<open>Cover image not found\<close> but the
  \<open>IsADirectoryError\<close> of \<open>Image.open\<close>, which the window reports as an unexpected
  error.\<close>

theorem encode_empty_cover_path:
  assumes "fs (parse_path []) = Some Directory" and "message \<noteq> []" and "ensure_png out = Inr q"
  shows "encode_message_to_image None fs (PStr []) message out =
           (fs, Inl (OSError (''[Errno 21] Is a directory: '' @ quote ''.'')))"
proof -
  have "path_str (parse_path []) = ''.''" by (simp add: path_str_def parse_path_def splitroot_def)
  with assms show ?thesis
    by (simp add: encode_message_to_image_def backend_encode_def fallback_encode_def image_open_def exists_def)
qed

end
