(* ===== verification/Gui.thy ===== *)
theory Gui
  imports Api
begin

text \<open>
  The window of \<^verbatim>\<open>src/src/image_steganography/main.py\<close> (class \<open>App\<close>, re-exported
  by \<^verbatim>\<open>gui.py\<close>) as a state machine over the state its callbacks read and write: the
  four \<open>tk.StringVar\<close>s, the text of the message box, the read-only text widget of the
  decoded message, the status bar, the last message box shown, and the file system
  the codec works on. The constructor and its builders (\<open>_build_ui\<close> and the tab builders)
  are modelled by the first values they give these fields; their geometry and labels
  are not. An event is what the user does: choose a file in one of
  the three dialogs (the empty string is a cancelled dialog), type into an entry or the
  message box, or press Encode or Decode; \<open>gui_step\<close> runs the callback of that
  event. A Tk text widget in the \<open>disabled\<close> state ignores \<open>delete\<close> and
  \<open>insert\<close>, which is why \<open>_on_decode\<close> enables it around its update; the widget
  model keeps that rule. \<open>Text.get("1.0", "end")\<close> returns the text with Tk's final
  newline, which \<open>.strip()\<close> removes with Python's whitespace rule. An exception a
  callback does not catch (the \<open>ValueError\<close> of \<open>with_name\<close> or of
  \<open>ensure_png\<close> in \<open>_browse_output\<close>) is reported by Tk and leaves the state
  as it was. The window's codec backend is a field of the state (\<open>lsb_conf\<close>), fixed
  at start. The lemmas are invariants of every reachable state (bundled as
  \<open>gui_inv\<close>, proved by rule induction), the behaviour of the encode and decode
  callbacks, and a liveness property: from every reachable state some sequence of events
  shows a given message.
\<close>

datatype wstate = Normal | Disabled

record text_widget =
  content :: pystr
  wstate :: wstate

datatype box = ShowInfo string string | ShowError string string | ShowWarning string string

record app =
  cover_path :: string
  message_txt :: pystr
  output_path :: string
  stego_path :: string
  decoded_txt :: text_widget
  status_var :: string
  last_box :: "box option"
  files :: store
  lsb_conf :: "lsb_backend option"

datatype event =
    BrowseCover string
  | BrowseOutput string
  | BrowseStego string
  | EditCover string
  | EditOutput string
  | EditStego string
  | EditMessage pystr
  | PressEncode
  | PressDecode

definition text_configure :: "text_widget \<Rightarrow> wstate \<Rightarrow> text_widget" where
  "text_configure w s = w\<lparr>wstate := s\<rparr>"

definition text_delete_all :: "text_widget \<Rightarrow> text_widget" where
  "text_delete_all w = (if wstate w = Normal then w\<lparr>content := []\<rparr> else w)"

definition text_insert_start :: "text_widget \<Rightarrow> pystr \<Rightarrow> text_widget" where
  "text_insert_start w s = (if wstate w = Normal then w\<lparr>content := s @ content w\<rparr> else w)"

text \<open>\<open>str.isspace()\<close>, the characters \<open>str.strip()\<close> removes.\<close>

definition py_isspace :: "nat \<Rightarrow> bool" where
  "py_isspace c \<longleftrightarrow>
     (0x09 \<le> c \<and> c \<le> 0x0D) \<or> (0x1C \<le> c \<and> c \<le> 0x20) \<or> c = 0x85 \<or> c = 0xA0 \<or> c = 0x1680 \<or>
     (0x2000 \<le> c \<and> c \<le> 0x200A) \<or> c = 0x2028 \<or> c = 0x2029 \<or> c = 0x202F \<or> c = 0x205F \<or> c = 0x3000"

definition py_strip :: "pystr \<Rightarrow> pystr" where
  "py_strip s = rev (dropWhile py_isspace (rev (dropWhile py_isspace s)))"

definition str_error :: "py_error \<Rightarrow> string" where
  "str_error e =
     (case e of
        SteganographyError m \<Rightarrow> m
      | ValueError m \<Rightarrow> m
      | OverflowError m \<Rightarrow> m
      | UnicodeEncodeError \<Rightarrow> ''utf-8 codec can not encode: surrogates not allowed''
      | OSError m \<Rightarrow> m)"

text \<open>The constructor: \<open>App.__init__\<close> calls \<open>_build_ui\<close>, which builds the Encode
  tab, then the Decode tab, then the status bar. Each builder creates the variables and
  widgets its callbacks later read: a \<open>tk.StringVar()\<close> and a new \<open>tk.Text\<close> start
  empty, a Tk text widget starts \<open>normal\<close> unless created with \<open>state="disabled"\<close>.
  The layout calls (\<open>grid\<close>, labels, the buttons' \<open>command=\<close> wiring, which
  \<open>gui_step\<close> models) change none of these fields. \<open>tk_root\<close> is the window right
  after \<open>super().__init__()\<close>: the store and the backend are there, and the fields
  the builders set hold no value yet (the empty string and a \<open>normal\<close> widget stand
  for that).\<close>

definition build_encode_tab :: "app \<Rightarrow> app" where
  "build_encode_tab st = st\<lparr>cover_path := [], message_txt := [], output_path := []\<rparr>"

definition build_decode_tab :: "app \<Rightarrow> app" where
  "build_decode_tab st =
     st\<lparr>stego_path := [], decoded_txt := \<lparr>content = [], wstate = Disabled\<rparr>\<rparr>"

definition build_ui :: "app \<Rightarrow> app" where
  "build_ui st = (build_decode_tab (build_encode_tab st))\<lparr>status_var := ''Ready.''\<rparr>"

definition tk_root :: "store \<Rightarrow> lsb_backend option \<Rightarrow> app" where
  "tk_root fs lsb =
     \<lparr>cover_path = [], message_txt = [], output_path = [], stego_path = [],
      decoded_txt = \<lparr>content = [], wstate = Normal\<rparr>, status_var = [], last_box = None,
      files = fs, lsb_conf = lsb\<rparr>"

definition app_init :: "store \<Rightarrow> lsb_backend option \<Rightarrow> app" where
  "app_init fs lsb = build_ui (tk_root fs lsb)"

definition browse_cover :: "app \<Rightarrow> string \<Rightarrow> app" where
  "browse_cover st path = (if path \<noteq> [] then st\<lparr>cover_path := path\<rparr> else st)"

definition browse_output :: "app \<Rightarrow> string \<Rightarrow> app" where
  "browse_output st path =
     (let initial = (if cover_path st \<noteq> [] then with_name (parse_path (cover_path st)) ''stego.png''
                     else Inr (parse_path ''stego.png''))
      in case initial of
           Inl e \<Rightarrow> st
         | Inr _ \<Rightarrow>
             if path \<noteq> [] then
               (case ensure_png (PStr path) of
                  Inl e \<Rightarrow> st
                | Inr p \<Rightarrow> st\<lparr>output_path := path_str p\<rparr>)
             else st)"

definition browse_stego :: "app \<Rightarrow> string \<Rightarrow> app" where
  "browse_stego st path = (if path \<noteq> [] then st\<lparr>stego_path := path\<rparr> else st)"

definition on_encode :: "app \<Rightarrow> app" where
  "on_encode st =
     (case encode_message_to_image (lsb_conf st) (files st) (PStr (cover_path st)) (py_strip (message_txt st @ [10]))
             (PStr (if output_path st = [] then ''stego.png'' else output_path st)) of
        (fs', Inl (SteganographyError m)) \<Rightarrow>
          st\<lparr>files := fs', last_box := Some (ShowError ''Encode failed'' m), status_var := ''Encode failed.''\<rparr>
      | (fs', Inl e) \<Rightarrow>
          st\<lparr>files := fs', last_box := Some (ShowError ''Unexpected error'' (str_error e)),
             status_var := ''Unexpected error.''\<rparr>
      | (fs', Inr out) \<Rightarrow>
          st\<lparr>files := fs', last_box := Some (ShowInfo ''Success'' (''Stego image saved to:'' @ [CHR 10] @ path_str out)),
             status_var := ''Encoded -> '' @ path_str out\<rparr>)"

definition on_decode :: "app \<Rightarrow> app" where
  "on_decode st =
     (case decode_message_from_image (lsb_conf st) (files st) (PStr (stego_path st)) of
        Inl (SteganographyError m) \<Rightarrow>
          st\<lparr>last_box := Some (ShowWarning ''No message'' m), status_var := ''Decode failed.''\<rparr>
      | Inl e \<Rightarrow>
          st\<lparr>last_box := Some (ShowError ''Unexpected error'' (str_error e)), status_var := ''Unexpected error.''\<rparr>
      | Inr msg \<Rightarrow>
          (let w = text_configure (decoded_txt st) Normal;
               w = text_delete_all w;
               w = text_insert_start w msg;
               w = text_configure w Disabled
           in st\<lparr>decoded_txt := w, status_var := ''Decoded message displayed.''\<rparr>))"

fun gui_step :: "app \<Rightarrow> event \<Rightarrow> app" where
  "gui_step st (BrowseCover p) = browse_cover st p"
| "gui_step st (BrowseOutput p) = browse_output st p"
| "gui_step st (BrowseStego p) = browse_stego st p"
| "gui_step st (EditCover s) = st\<lparr>cover_path := s\<rparr>"
| "gui_step st (EditOutput s) = st\<lparr>output_path := s\<rparr>"
| "gui_step st (EditStego s) = st\<lparr>stego_path := s\<rparr>"
| "gui_step st (EditMessage s) = st\<lparr>message_txt := s\<rparr>"
| "gui_step st PressEncode = on_encode st"
| "gui_step st PressDecode = on_decode st"

fun gui_run :: "app \<Rightarrow> event list \<Rightarrow> app" where
  "gui_run st [] = st"
| "gui_run st (e # es) = gui_run (gui_step st e) es"

inductive reachable :: "store \<Rightarrow> app \<Rightarrow> bool" where
  start: "reachable fs (app_init fs lsb)"
| step: "reachable fs st \<Longrightarrow> reachable fs (gui_step st e)"


definition changed_png :: "store \<Rightarrow> store \<Rightarrow> bool" where
  "changed_png fs0 fs \<longleftrightarrow>
     (\<forall>p. fs p \<noteq> fs0 p \<longrightarrow> ascii_lower (suffix p) = ''.png'' \<and> (\<exists>img. fs p = Some (ImageFile img)))"

definition images_wf :: "store \<Rightarrow> bool" where
  "images_wf fs \<longleftrightarrow> (\<forall>p img. fs p = Some (ImageFile img) \<longrightarrow> wf_image img)"

text \<open>The contract the window needs from a \<^verbatim>\<open>stegano\<close> backend: \<open>lsb.hide\<close>
  returns well-formed images. The fallback needs none.\<close>

definition backend_wf :: "lsb_backend option \<Rightarrow> bool" where
  "backend_wf lsb \<longleftrightarrow>
     (case lsb of None \<Rightarrow> True | Some b \<Rightarrow> (\<forall>fs c m img. hide b fs c m = Inr img \<longrightarrow> wf_image img))"

text \<open>The invariant of the window, one conjunct per property kept by every step.\<close>

definition gui_inv :: "store \<Rightarrow> app \<Rightarrow> bool" where
  "gui_inv fs0 st \<longleftrightarrow>
     changed_png fs0 (files st) \<and> wstate (decoded_txt st) = Disabled \<and>
     (images_wf fs0 \<and> backend_wf (lsb_conf st) \<longrightarrow> images_wf (files st))"

lemmas gui_inv_defs = gui_inv_def changed_png_def images_wf_def backend_wf_def

subsection \<open>The callbacks\<close>

lemma decoded_update:
  "text_configure (text_insert_start (text_delete_all (text_configure w Normal)) msg) Disabled =
   \<lparr>content = msg, wstate = Disabled\<rparr>"
  by (simp add: text_configure_def text_insert_start_def text_delete_all_def)

lemma browse_output_cases:
  "browse_output st path = st \<or> (\<exists>q. ensure_png (PStr path) = Inr q \<and> browse_output st path = st\<lparr>output_path := path_str q\<rparr>)"
  by (auto simp: browse_output_def Let_def split: sum.splits)

lemma on_encode_files:
  "files (on_encode st) =
   fst (encode_message_to_image (lsb_conf st) (files st) (PStr (cover_path st)) (py_strip (message_txt st @ [10]))
          (PStr (if output_path st = [] then ''stego.png'' else output_path st)))"
  by (simp add: on_encode_def split: prod.split sum.split py_error.split)

lemma on_encode_decoded [simp]: "decoded_txt (on_encode st) = decoded_txt st"
  by (simp add: on_encode_def split: prod.split sum.split py_error.split)

lemma on_decode_files [simp]: "files (on_decode st) = files st"
  by (simp add: on_decode_def Let_def split: sum.split py_error.split)

lemma on_decode_decoded:
  "decoded_txt (on_decode st) = decoded_txt st \<or> wstate (decoded_txt (on_decode st)) = Disabled"
  by (simp add: on_decode_def Let_def decoded_update split: sum.split py_error.split)

lemma gui_step_files:
  "files (gui_step st e) = files st \<or> files (gui_step st e) = files (on_encode st)"
  by (cases e) (auto simp: browse_cover_def browse_stego_def browse_output_def Let_def split: sum.splits)

lemma gui_step_decoded:
  "decoded_txt (gui_step st e) = decoded_txt st \<or> wstate (decoded_txt (gui_step st e)) = Disabled"
  by (cases e) (auto simp: browse_cover_def browse_stego_def browse_output_def Let_def on_decode_decoded
                     split: sum.splits)

lemma on_encode_lsb [simp]: "lsb_conf (on_encode st) = lsb_conf st"
  by (simp add: on_encode_def split: prod.split sum.split py_error.split)

lemma on_decode_lsb [simp]: "lsb_conf (on_decode st) = lsb_conf st"
  by (simp add: on_decode_def Let_def split: sum.split py_error.split)

lemma gui_step_lsb [simp]: "lsb_conf (gui_step st e) = lsb_conf st"
  by (cases e) (auto simp: browse_cover_def browse_stego_def browse_output_def Let_def split: sum.splits)

lemma encode_changed_png:
  assumes "encode_message_to_image lsb fs c m out = (fs', r)" and "changed_png fs0 fs"
  shows "changed_png fs0 fs'"
  using encode_cases [OF assms(1)]
proof
  assume "\<exists>e. r = Inl e \<and> fs' = fs"
  with assms(2) show ?thesis by auto
next
  assume "\<exists>q img'. r = Inr q \<and> m \<noteq> [] \<and> ensure_png out = Inr q \<and> produced_by lsb fs (as_path c) m img' \<and>
            fs' = fs(q \<mapsto> ImageFile img')"
  then obtain q img' where "ensure_png out = Inr q" and "fs' = fs(q \<mapsto> ImageFile img')" by blast
  with assms(2) ensure_png_suffix_png show ?thesis by (auto simp: changed_png_def)
qed

lemma produced_wf:
  "produced_by lsb fs cover m img' \<Longrightarrow> images_wf fs \<Longrightarrow> backend_wf lsb \<Longrightarrow> wf_image img'"
  by (cases lsb) (auto simp: produced_by_def images_wf_def backend_wf_def dest: embed_shape)

lemma encode_images_wf:
  assumes "encode_message_to_image lsb fs c m out = (fs', r)" and "images_wf fs" and "backend_wf lsb"
  shows "images_wf fs'"
  using encode_cases [OF assms(1)]
proof
  assume "\<exists>e. r = Inl e \<and> fs' = fs"
  with assms(2) show ?thesis by auto
next
  assume "\<exists>q img'. r = Inr q \<and> m \<noteq> [] \<and> ensure_png out = Inr q \<and> produced_by lsb fs (as_path c) m img' \<and>
            fs' = fs(q \<mapsto> ImageFile img')"
  then obtain q img' where p: "produced_by lsb fs (as_path c) m img'" and fs': "fs' = fs(q \<mapsto> ImageFile img')"
    by blast
  from produced_wf [OF p assms(2,3)] assms(2) fs' show ?thesis by (auto simp: images_wf_def)
qed

text \<open>The state \<open>App()\<close> starts in, field by field.\<close>

lemma app_init_fields:
  "app_init fs lsb =
     \<lparr>cover_path = [], message_txt = [], output_path = [], stego_path = [],
      decoded_txt = \<lparr>content = [], wstate = Disabled\<rparr>, status_var = ''Ready.'', last_box = None,
      files = fs, lsb_conf = lsb\<rparr>"
  by (simp add: app_init_def build_ui_def build_encode_tab_def build_decode_tab_def tk_root_def)

lemma gui_inv_init: "gui_inv fs (app_init fs lsb)"
  by (simp add: gui_inv_defs app_init_fields)

lemma gui_step_inv:
  assumes "gui_inv fs0 st"
  shows "gui_inv fs0 (gui_step st e)"
proof -
  from assms have inv: "changed_png fs0 (files st)" "wstate (decoded_txt st) = Disabled"
    "images_wf fs0 \<and> backend_wf (lsb_conf st) \<longrightarrow> images_wf (files st)" by (simp_all add: gui_inv_def)
  have "changed_png fs0 (files (gui_step st e))"
    using gui_step_files [of st e] inv(1)
      encode_changed_png [OF prod.collapse [symmetric] inv(1), of "lsb_conf st" "PStr (cover_path st)"]
    by (auto simp: on_encode_files)
  moreover have "images_wf fs0 \<and> backend_wf (lsb_conf st) \<longrightarrow> images_wf (files (gui_step st e))"
    using gui_step_files [of st e] inv(3) encode_images_wf [OF prod.collapse [symmetric]]
    by (auto simp: on_encode_files)
  moreover have "wstate (decoded_txt (gui_step st e)) = Disabled"
    using gui_step_decoded [of st e] inv(2) by auto
  ultimately show ?thesis by (simp add: gui_inv_def)
qed

lemma reachable_gui_inv: "reachable fs0 st \<Longrightarrow> gui_inv fs0 st"
proof (induction rule: reachable.induct)
  case (start fs lsb)
  show ?case by (rule gui_inv_init)
next
  case (step fs st e)
  from step.IH show ?case by (rule gui_step_inv)
qed

lemma reachable_run: "reachable fs st \<Longrightarrow> reachable fs (gui_run st es)"
  by (induction es arbitrary: st) (auto intro: reachable.step)

lemma on_encode_ok:
  assumes "encode_message_to_image (lsb_conf st) (files st) (PStr (cover_path st)) (py_strip (message_txt st @ [10]))
             (PStr (if output_path st = [] then ''stego.png'' else output_path st)) = (fs', Inr q)"
  shows "on_encode st = st\<lparr>files := fs', last_box := Some (ShowInfo ''Success'' (''Stego image saved to:'' @ [CHR 10] @ path_str q)),
             status_var := ''Encoded -> '' @ path_str q\<rparr>"
  using assms by (simp add: on_encode_def)

lemma on_decode_ok:
  "decode_message_from_image (lsb_conf st) (files st) (PStr (stego_path st)) = Inr msg \<Longrightarrow>
   on_decode st = st\<lparr>decoded_txt := \<lparr>content = msg, wstate = Disabled\<rparr>, status_var := ''Decoded message displayed.''\<rparr>"
  by (simp add: on_decode_def decoded_update)

text \<open>Tk's final newline is whitespace, so a box holding only whitespace strips to the
  empty string.\<close>

lemma py_strip_blank: "\<forall>c\<in>set s. py_isspace c \<Longrightarrow> py_strip (s @ [10]) = []"
  by (simp add: py_strip_def py_isspace_def)

lemma path_str_nonempty: "path_str p \<noteq> []"
  by (simp add: path_str_def Let_def)

lemma gui_encode_decode:
  assumes "lsb_conf st = None"
    and "files st (parse_path (cover_path st)) = Some (ImageFile img)" and "wf_image img"
    and "py_strip (message_txt st @ [10]) = msg" and "msg \<noteq> []"
    and "utf8_encode msg = Inr enc" and "length enc < 2 ^ 32"
    and "8 * (9 + length enc) \<le> capacity (width img) (height img)"
    and "ensure_png (PStr (if output_path st = [] then ''stego.png'' else output_path st)) = Inr q"
    and "files st (parent q) = Some Directory" and "files st q \<noteq> Some Directory"
  shows "content (decoded_txt (gui_run st [PressEncode, BrowseStego (path_str q), PressDecode])) = msg \<and>
         status_var (gui_run st [PressEncode, BrowseStego (path_str q), PressDecode]) = ''Decoded message displayed.''"
proof -
  let ?img' = "img\<lparr>pixels := embed_loop (pixels img) (row_major (width img) (height img)) (frame_bits enc)\<rparr>"
  let ?fs' = "(files st)(q \<mapsto> ImageFile ?img')"
  have emb: "fallback_embed img msg = Inr ?img'" using assms(6-8) by (rule embed_ok)
  have "encode_message_to_image None (files st) (PStr (cover_path st)) (py_strip (message_txt st @ [10]))
          (PStr (if output_path st = [] then ''stego.png'' else output_path st)) = (?fs', Inr q)"
    unfolding assms(4) using assms(2,5) emb assms(9-11) by (intro encode_ok) simp_all
  then have st1: "on_encode st = st\<lparr>files := ?fs', last_box := Some (ShowInfo ''Success'' (''Stego image saved to:'' @ [CHR 10] @ path_str q)),
             status_var := ''Encoded -> '' @ path_str q\<rparr>" (is "_ = ?st1")
    using assms(1) by (intro on_encode_ok) simp
  have "valid_path q"
    using assms(9) by (rule ensure_png_valid [rotated]) (simp add: valid_parse_path)
  then have q: "as_path (PStr (path_str q)) = q" by (simp add: parse_path_str)
  have "fallback_extract ?img' = Inr msg" using assms(3,6-8) by (rule extract_after_embed)
  then have "decode_message_from_image None ?fs' (PStr (path_str q)) = Inr msg"
    using decode_image [of ?fs' "PStr (path_str q)" ?img'] q assms(5) by simp
  then have "on_decode (browse_stego ?st1 (path_str q)) =
             (browse_stego ?st1 (path_str q))\<lparr>decoded_txt := \<lparr>content = msg, wstate = Disabled\<rparr>,
                status_var := ''Decoded message displayed.''\<rparr>"
    using assms(1) by (intro on_decode_ok) (simp add: browse_stego_def path_str_nonempty)
  then show ?thesis using st1 by simp
qed

subsection \<open>Properties of the window\<close>


text \<open>C34 (safety): in every reachable state, every path whose entry differs from the
  initial file system has the \<open>.png\<close> suffix and holds an image file: the window
  never overwrites the cover or any other non-PNG file, and never deletes one.\<close>

theorem gui_only_png_written: "reachable fs0 st \<Longrightarrow> changed_png fs0 (files st)"
  using reachable_gui_inv by (simp add: gui_inv_def)

text \<open>C35 (invariant): the decoded-message widget is disabled (read-only for the user)
  in every reachable state, since \<open>_on_decode\<close> disables it again after its update.\<close>

theorem decoded_read_only: "reachable fs0 st \<Longrightarrow> wstate (decoded_txt st) = Disabled"
  using reachable_gui_inv by (simp add: gui_inv_def)

text \<open>C37 (functional): after the Save As dialog the output entry is unchanged or
  holds a path whose suffix is \<open>.png\<close>, and that text names the path
  \<open>ensure_png\<close> produced.\<close>

theorem browse_output_png:
  assumes "gui_step st (BrowseOutput path) = st'" and "output_path st' \<noteq> output_path st"
  shows "\<exists>q. ensure_png (PStr path) = Inr q \<and> parse_path (output_path st') = q \<and>
             ascii_lower (suffix (parse_path (output_path st'))) = ''.png''"
proof -
  from browse_output_cases [of st path] assms obtain q where e: "ensure_png (PStr path) = Inr q"
    and st': "st' = st\<lparr>output_path := path_str q\<rparr>" by auto
  have "valid_path q" using e by (rule ensure_png_valid [rotated]) (simp add: valid_parse_path)
  then have "parse_path (output_path st') = q" by (simp add: st' parse_path_str)
  with e ensure_png_suffix_png [OF e] show ?thesis by simp
qed

text \<open>C38 (error): when the cover entry holds a non-empty path with no final
  component (such as \<open>"/"\<close>), \<open>Path(...).with_name("stego.png")\<close> raises
  \<open>ValueError\<close> before the dialog opens, so Save As never changes the state.\<close>

theorem save_as_ignored:
  assumes "cover_path st \<noteq> []" and "name (parse_path (cover_path st)) = []"
  shows "gui_step st (BrowseOutput path) = st"
  using assms by (simp add: browse_output_def with_name_def)


text \<open>C36 (liveness): from every state a session with the fallback can reach, the user
  can still hide a message and read it back: typing the cover path, the message and an
  output path, pressing Encode, choosing the written file and pressing Decode shows the
  message. The cover is read in the current state; the output directory and the output
  path are taken from the initial file system, which the session cannot have damaged
  (it only writes \<open>.png\<close> image files).\<close>

theorem gui_can_show_message:
  assumes "reachable fs0 st" and "lsb_conf st = None" and "images_wf fs0"
    and "files st (parse_path c) = Some (ImageFile img)"
    and "py_strip (m @ [10]) = m" and "m \<noteq> []"
    and "utf8_encode m = Inr enc" and "length enc < 2 ^ 32"
    and "8 * (9 + length enc) \<le> capacity (width img) (height img)"
    and "out \<noteq> []" and "ensure_png (PStr out) = Inr q"
    and "fs0 (parent q) = Some Directory" and "ascii_lower (suffix (parent q)) \<noteq> ''.png''"
    and "fs0 q \<noteq> Some Directory"
  shows "\<exists>es. content (decoded_txt (gui_run st es)) = m"
proof -
  have inv: "gui_inv fs0 st" using assms(1) by (rule reachable_gui_inv)
  then have ch: "changed_png fs0 (files st)" and "images_wf (files st)"
    using assms(2,3) by (simp_all add: gui_inv_def backend_wf_def)
  then have wf: "wf_image img" using assms(4) by (auto simp: images_wf_def)
  have dir: "files st (parent q) = Some Directory"
  proof (rule ccontr)
    assume "files st (parent q) \<noteq> Some Directory"
    with assms(12) have "files st (parent q) \<noteq> fs0 (parent q)" by simp
    with ch have "ascii_lower (suffix (parent q)) = ''.png''" by (simp add: changed_png_def)
    with assms(13) show False by simp
  qed
  have nd: "files st q \<noteq> Some Directory"
    using ch assms(14) by (cases "files st q = fs0 q") (auto simp: changed_png_def)
  let ?st = "st\<lparr>cover_path := c, message_txt := m, output_path := out\<rparr>"
  have "content (decoded_txt (gui_run ?st [PressEncode, BrowseStego (path_str q), PressDecode])) = m"
    using gui_encode_decode [of ?st img m enc q] assms(2,4-11) wf dir nd by simp
  moreover have "gui_run st [EditCover c, EditMessage m, EditOutput out, PressEncode, BrowseStego (path_str q), PressDecode] =
                 gui_run ?st [PressEncode, BrowseStego (path_str q), PressDecode]"
    by simp
  ultimately show ?thesis by metis
qed


text \<open>C21 (error): pressing Encode while the message box holds only whitespace always
  fails with the \<open>Encode failed\<close> box and writes nothing, with either backend. Because
  \<open>encode_message_to_image\<close> checks the cover before the message, the text is
  \<open>Cover image not found\<close> when the cover is missing and \<open>Message must not be empty\<close>
  otherwise.\<close>

theorem gui_blank_message_rejected:
  assumes "\<forall>c\<in>set (message_txt st). py_isspace c"
  shows "files (on_encode st) = files st \<and> status_var (on_encode st) = ''Encode failed.'' \<and>
         last_box (on_encode st) = Some (ShowError ''Encode failed''
           (if exists (files st) (parse_path (cover_path st)) then ''Message must not be empty''
            else ''Cover image not found: '' @ path_str (parse_path (cover_path st))))"
  using py_strip_blank [OF assms] by (simp add: on_encode_def encode_message_to_image_def Let_def)

text \<open>C28 (functional): a failed decode leaves the decoded-message widget as it was. A
  message shown by an earlier decode stays displayed while the status bar reports the
  failure.\<close>

theorem decode_failure_keeps_display:
  assumes "decode_message_from_image (lsb_conf st) (files st) (PStr (stego_path st)) = Inl e"
  shows "decoded_txt (on_decode st) = decoded_txt st \<and> files (on_decode st) = files st \<and>
         status_var (on_decode st) \<in> {''Decode failed.'', ''Unexpected error.''}"
  using assms by (cases e) (simp_all add: on_decode_def)

end
