(* ===== verification/Tests.thy ===== *)
theory Tests
  imports Gui
begin

text \<open>
  The scenarios of \<^verbatim>\<open>src/tests/test_core.py\<close> and of the examples of the design,
  run on the codec model. \<open>image_new\<close> is PIL's \<open>Image.new("RGBA", (w, h), colour)\<close>,
  a grid of \<open>h\<close> rows of \<open>w\<close> copies of the colour; \<open>make_cover\<close> is the test's
  \<open>_make_cover\<close>. \<open>crop_rows k\<close> is \<open>img.crop((0, 0, width, k))\<close>, keeping the first
  \<open>k\<close> rows. The messages are code-point lists: \<open>test_secret\<close> is the literal of
  \<open>test_encode_decode_roundtrip\<close> as the file holds it (its last four code points are
  the UTF-8 bytes of an emoji read as Windows-1252). pytest's \<open>tmp_path\<close> is a fixed
  absolute directory and \<open>path_join p n\<close> is \<open>p / n\<close> for a plain name \<open>n\<close>;
  \<open>test_store\<close> is the file system after \<open>_make_cover\<close> and the blank image of
  \<open>test_decode_missing\<close> are saved.
\<close>

definition image_new :: "nat \<Rightarrow> nat \<Rightarrow> rgba \<Rightarrow> image" where
  "image_new w h colour = \<lparr>width = w, height = h, pixels = replicate h (replicate w colour)\<rparr>"

definition make_cover :: image where
  "make_cover = image_new 128 128 \<lparr>red = 20, green = 40, blue = 60, alpha = 255\<rparr>"

definition crop_rows :: "nat \<Rightarrow> image \<Rightarrow> image" where
  "crop_rows k img = img\<lparr>height := k, pixels := take k (pixels img)\<rparr>"

definition test_secret :: pystr where
  "test_secret = map of_char ''The quick brown fox jumps over 13 lazy dogs. '' @ [0xF0, 0x178, 0xA6, 0x160]"

definition test_secret_utf8 :: "byte list" where
  "test_secret_utf8 = map of_char ''The quick brown fox jumps over 13 lazy dogs. '' @
     [0xC3, 0xB0, 0xC5, 0xB8, 0xC2, 0xA6, 0xC5, 0xA0]"

definition tmp_path :: pypath where
  "tmp_path = \<lparr>path_root = ''/'', path_tail = [''tmp'', ''pytest-0'', ''test0'']\<rparr>"

definition path_join :: "pypath \<Rightarrow> string \<Rightarrow> pypath" where
  "path_join p n = p\<lparr>path_tail := path_tail p @ [n]\<rparr>"

definition blank_image :: image where
  "blank_image = image_new 64 64 \<lparr>red = 0, green = 0, blue = 0, alpha = 255\<rparr>"

definition test_store :: store where
  "test_store = [parse_path [] \<mapsto> Directory, tmp_path \<mapsto> Directory,
                 path_join tmp_path ''cover.png'' \<mapsto> ImageFile make_cover,
                 path_join tmp_path ''blank.png'' \<mapsto> ImageFile blank_image]"

definition spec_message :: pystr where
  "spec_message = map of_char ''The quick brown fox jumps over 13 lazy dogs.''"

lemma wf_image_new [simp]: "wf_image (image_new w h c)"
  by (simp add: image_new_def wf_image_def list_all_iff)

lemma test_secret_encode: "utf8_encode test_secret = Inr test_secret_utf8"
  by (simp add: test_secret_def test_secret_utf8_def utf8_encode_char_def)

lemma length_test_secret_utf8 [codec_simps]: "length test_secret_utf8 = 53"
  by (simp add: test_secret_utf8_def)

lemma test_store_cover [codec_simps]: "test_store (path_join tmp_path ''cover.png'') = Some (ImageFile make_cover)"
  by (simp add: test_store_def tmp_path_def path_join_def parse_path_def splitroot_def)

lemma test_store_blank [codec_simps]: "test_store (path_join tmp_path ''blank.png'') = Some (ImageFile blank_image)"
  by (simp add: test_store_def tmp_path_def path_join_def parse_path_def splitroot_def)

lemma test_store_stego:
  "test_store (parent (path_join tmp_path ''stego.png'')) = Some Directory \<and>
   test_store (path_join tmp_path ''stego.png'') = None"
  by (simp add: test_store_def tmp_path_def path_join_def parent_def parse_path_def splitroot_def)

lemma ensure_png_stego: "ensure_png (PObj (path_join tmp_path ''stego.png'')) = Inr (path_join tmp_path ''stego.png'')"
  by code_simp

lemma make_cover_fits: "8 * (9 + length test_secret_utf8) \<le> capacity (width make_cover) (height make_cover)"
  by (simp add: length_test_secret_utf8 make_cover_def image_new_def capacity_def)

lemma wf_make_cover [codec_simps]: "wf_image make_cover"
  by (simp add: make_cover_def)

theorem test_roundtrip_codec:
  "\<exists>img'. fallback_embed make_cover test_secret = Inr img' \<and> fallback_extract img' = Inr test_secret"
  using fallback_roundtrip [OF wf_make_cover test_secret_encode _ make_cover_fits]
  by (simp add: length_test_secret_utf8)

theorem test_encode_decode_roundtrip:
  "\<exists>fs'. encode_message_to_image None test_store (PObj (path_join tmp_path ''cover.png'')) test_secret
            (PObj (path_join tmp_path ''stego.png'')) = (fs', Inr (path_join tmp_path ''stego.png'')) \<and>
          fs' (path_join tmp_path ''stego.png'') \<noteq> None \<and>
          decode_message_from_image None fs' (PObj (path_join tmp_path ''stego.png'')) = Inr test_secret"
proof -
  have "test_secret \<noteq> []" by (simp add: test_secret_def)
  moreover have "length test_secret_utf8 < 2 ^ 32" by (simp add: codec_simps)
  ultimately show ?thesis
    using api_roundtrip [of test_store "PObj (path_join tmp_path ''cover.png'')", OF _ wf_make_cover _
            test_secret_encode _ make_cover_fits ensure_png_stego] test_store_cover test_store_stego
    by simp
qed

theorem test_decode_missing:
  "decode_message_from_image None test_store (PObj (path_join tmp_path ''blank.png'')) =
     Inl (SteganographyError ''No hidden message found or unable to decode.'')"
  by (rule decode_unwritten_raises [of test_store _ blank_image])
     (simp_all add: test_store_blank blank_image_def image_new_def list_all_iff wf_image_def)

theorem decode_error_kinds_witness:
  "decode_message_from_image None test_store (PStr ''missing.png'') =
     Inl (SteganographyError ''Image not found: missing.png'') \<and>
   ((\<exists>m. SteganographyError ''Image not found: missing.png'' = SteganographyError m) \<or>
    (\<exists>m. SteganographyError ''Image not found: missing.png'' = OSError m))"
proof -
  have d: "decode_message_from_image None test_store (PStr ''missing.png'') =
             Inl (SteganographyError ''Image not found: missing.png'')"
    by (simp add: decode_message_from_image_def exists_def test_store_def tmp_path_def path_join_def
                  parse_path_def splitroot_def path_str_def)
  from d decode_error_kinds [OF d] show ?thesis by simp
qed

theorem api_error_atomic_witness:
  "encode_message_to_image None test_store (PObj (path_join tmp_path ''cover.png'')) []
     (PObj (path_join tmp_path ''stego.png'')) =
     (test_store, Inl (SteganographyError ''Message must not be empty'')) \<and> test_store = test_store"
proof -
  have e: "encode_message_to_image None test_store (PObj (path_join tmp_path ''cover.png'')) []
     (PObj (path_join tmp_path ''stego.png'')) =
     (test_store, Inl (SteganographyError ''Message must not be empty''))"
    by (simp add: encode_message_to_image_def exists_def test_store_cover)
  from e api_error_atomic [OF e] show ?thesis by simp
qed

theorem api_writes_only_output_witness:
  "\<exists>fs'. encode_message_to_image None test_store (PObj (path_join tmp_path ''cover.png'')) [0x68, 0x69]
            (PObj (path_join tmp_path ''stego.png'')) = (fs', Inr (path_join tmp_path ''stego.png'')) \<and>
          ascii_lower (suffix (path_join tmp_path ''stego.png'')) = ''.png'' \<and>
          fs' (path_join tmp_path ''cover.png'') = Some (ImageFile make_cover)"
proof -
  let ?q = "path_join tmp_path ''stego.png''"
  let ?img' = "make_cover\<lparr>pixels := embed_loop (pixels make_cover) (row_major (width make_cover) (height make_cover))
                 (frame_bits [0x68, 0x69])\<rparr>"
  have u: "utf8_encode [0x68, 0x69] = Inr [0x68, 0x69]" by (simp add: utf8_encode_char_def)
  have "fallback_embed make_cover [0x68, 0x69] = Inr ?img'"
    by (rule embed_ok [OF u]) (simp_all add: make_cover_def image_new_def capacity_def)
  then have e: "encode_message_to_image None test_store (PObj (path_join tmp_path ''cover.png'')) [0x68, 0x69]
            (PObj ?q) = (test_store(?q \<mapsto> ImageFile ?img'), Inr ?q)"
    using test_store_cover ensure_png_stego test_store_stego by (intro encode_ok) simp_all
  have ne: "path_join tmp_path ''cover.png'' \<noteq> ?q" by (simp add: path_join_def tmp_path_def)
  from e api_writes_only_output [OF e] ne test_store_cover show ?thesis by auto
qed

theorem encode_empty_cover_path_witness:
  "encode_message_to_image None test_store (PStr []) [0x61] (PStr ''out.png'') =
     (test_store, Inl (OSError (''[Errno 21] Is a directory: '' @ quote ''.'')))"
proof -
  have s: "test_store (parse_path []) = Some Directory"
    by (simp add: test_store_def tmp_path_def path_join_def parse_path_def splitroot_def)
  have e: "ensure_png (PStr ''out.png'') = Inr (parse_path ''out.png'')" by code_simp
  show ?thesis using encode_empty_cover_path [of test_store "[0x61]", OF s _ e] by simp
qed

theorem embed_capacity_boundary_witness:
  "(\<exists>img'. fallback_embed (image_new 8 4 \<lparr>red = 1, green = 2, blue = 3, alpha = 4\<rparr>) [65, 66, 67] = Inr img') \<and>
   fallback_embed (image_new 31 1 \<lparr>red = 1, green = 2, blue = 3, alpha = 4\<rparr>) [65, 66, 67] =
     Inl (SteganographyError ''Message is too large for this image in fallback mode.'')"
proof -
  have e: "utf8_encode [65, 66, 67] = Inr [65, 66, 67]" by (simp add: utf8_encode_char_def)
  show ?thesis
    using embed_capacity_boundary [OF e, of "image_new 8 4 \<lparr>red = 1, green = 2, blue = 3, alpha = 4\<rparr>"]
      embed_capacity_boundary [OF e, of "image_new 31 1 \<lparr>red = 1, green = 2, blue = 3, alpha = 4\<rparr>"]
    by (simp add: image_new_def capacity_def)
qed

theorem extract_truncated_witness:
  "\<exists>img'. fallback_embed (image_new 4 8 \<lparr>red = 9, green = 9, blue = 9, alpha = 9\<rparr>) [65, 66] = Inr img' \<and>
          fallback_extract (crop_rows 7 img') = Inr [65]"
proof -
  let ?c = "image_new 4 8 \<lparr>red = 9, green = 9, blue = 9, alpha = 9\<rparr>"
  let ?img' = "?c\<lparr>pixels := embed_loop (pixels ?c) (row_major 4 8) (frame_bits [65, 66])\<rparr>"
  have e: "utf8_encode [65, 66] = Inr [65, 66]" by (simp add: utf8_encode_char_def)
  have emb: "fallback_embed ?c [65, 66] = Inr ?img'"
    using embed_ok [OF e, of ?c] by (simp add: image_new_def capacity_def)
  have rd: "read_loop (pixels ?img') (row_major 4 8) =
            frame_bits [65, 66] @ drop 88 (read_loop (pixels ?c) (row_major 4 8))"
    using read_after_embed [OF wf_image_new, of "frame_bits [65, 66]"]
    by (simp add: image_new_def capacity_def frame_bits_def del: to_bits_append)
  have "read_loop (pixels (crop_rows 7 ?img')) (row_major (width (crop_rows 7 ?img')) (height (crop_rows 7 ?img'))) =
        take 84 (frame_bits [65, 66])"
    using read_loop_crop_rows [of 7 8 "pixels ?img'" 4] rd
    by (simp add: crop_rows_def image_new_def del: to_bits_append)
  then have "fallback_extract (crop_rows 7 ?img') =
             Inr (case utf8_decode (take ((84 - 72) div 8) [65, 66]) of None \<Rightarrow> [] | Some m \<Rightarrow> m)"
    by (rule extract_truncated) simp_all
  moreover have "utf8_decode [65] = Some [65]"
    by (rule utf8_decode_encode_helper) (simp add: utf8_encode_char_def)
  ultimately show ?thesis using emb by auto
qed

theorem embed_encode_error_witness:
  "utf8_encode [0xD800] = Inl UnicodeEncodeError \<and> fallback_embed make_cover [0xD800] = Inl UnicodeEncodeError"
proof -
  have e: "utf8_encode [0xD800] = Inl UnicodeEncodeError" by (simp add: utf8_encode_char_def)
  with embed_encode_error [OF e, of make_cover] show ?thesis by simp
qed

subsection \<open>Runs of the window\<close>

lemma wf_blank_image: "wf_image blank_image"
  by (simp add: blank_image_def)

lemma test_store_images_wf: "images_wf test_store"
  by (auto simp: images_wf_def test_store_def wf_make_cover wf_blank_image split: if_splits)

lemma test_run_reachable:
  "reachable test_store (gui_run (app_init test_store None)
     [EditCover ''/tmp/pytest-0/test0/cover.png'', EditMessage [0x68, 0x69], PressEncode])"
  by (rule reachable_run [OF reachable.start])


theorem gui_only_png_written_witness:
  "changed_png test_store (files (gui_run (app_init test_store None)
     [EditCover ''/tmp/pytest-0/test0/cover.png'', EditMessage [0x68, 0x69], PressEncode]))"
  by (rule gui_only_png_written [OF test_run_reachable])

theorem decoded_read_only_witness:
  "wstate (decoded_txt (gui_run (app_init test_store None)
     [EditCover ''/tmp/pytest-0/test0/cover.png'', EditMessage [0x68, 0x69], PressEncode])) = Disabled"
  by (rule decoded_read_only [OF test_run_reachable])

theorem gui_can_show_message_witness:
  "\<exists>es. content (decoded_txt (gui_run (app_init test_store None) es)) = test_secret"
proof -
  have c: "parse_path ''/tmp/pytest-0/test0/cover.png'' = path_join tmp_path ''cover.png''" by code_simp
  have s: "py_strip (test_secret @ [10]) = test_secret" by code_simp
  have o: "ensure_png (PStr ''/tmp/pytest-0/test0/stego'') = Inr (path_join tmp_path ''stego.png'')" by code_simp
  have p: "ascii_lower (suffix (parent (path_join tmp_path ''stego.png''))) \<noteq> ''.png''" by code_simp
  have "test_secret \<noteq> []" by (simp add: test_secret_def)
  moreover have "length test_secret_utf8 < 2 ^ 32" by (simp add: length_test_secret_utf8)
  moreover have "files (app_init test_store None) (parse_path ''/tmp/pytest-0/test0/cover.png'') =
                 Some (ImageFile make_cover)" by (simp add: app_init_fields c test_store_cover)
  ultimately show ?thesis
    using gui_can_show_message [OF reachable.start, of test_store None "''/tmp/pytest-0/test0/cover.png''"
            make_cover test_secret test_secret_utf8 "''/tmp/pytest-0/test0/stego''"
            "path_join tmp_path ''stego.png''"]
      test_store_images_wf s test_secret_encode make_cover_fits o p test_store_stego
    by (simp add: app_init_fields)
qed

theorem browse_output_png_witness:
  "output_path (gui_step (app_init test_store None) (BrowseOutput ''out/pic.jpg'')) = ''out/pic.png'' \<and>
   (\<exists>q. ensure_png (PStr ''out/pic.jpg'') = Inr q \<and> parse_path ''out/pic.png'' = q \<and>
        ascii_lower (suffix (parse_path ''out/pic.png'')) = ''.png'')"
proof -
  have e: "ensure_png (PStr ''out/pic.jpg'') = Inr (parse_path ''out/pic.png'')" by code_simp
  have p: "path_str (parse_path ''out/pic.png'') = ''out/pic.png''" by code_simp
  have st: "output_path (gui_step (app_init test_store None) (BrowseOutput ''out/pic.jpg'')) = ''out/pic.png''"
    by (simp add: browse_output_def app_init_fields e p)
  have "output_path (gui_step (app_init test_store None) (BrowseOutput ''out/pic.jpg'')) \<noteq>
        output_path (app_init test_store None)" using st by (simp add: app_init_fields)
  from browse_output_png [OF refl this] st show ?thesis by simp
qed

theorem save_as_ignored_witness:
  "gui_step ((app_init test_store None)\<lparr>cover_path := ''/''\<rparr>) (BrowseOutput ''x.png'') =
   (app_init test_store None)\<lparr>cover_path := ''/''\<rparr>"
proof -
  have "name (parse_path ''/'') = []" by code_simp
  then show ?thesis by (intro save_as_ignored) simp_all
qed

subsection \<open>The examples of the design\<close>

text \<open>The first end-to-end example of the design, run on the code: the
  message \<open>"The quick brown fox jumps over 13 lazy dogs."\<close> encodes to 44 bytes, its
  frame to 53 bytes and 424 bits, not the 45, 54 and 432 the design states; the 128 by 128
  cover has 49152 bits of capacity and embedding succeeds.\<close>

theorem spec_example_sizes:
  "\<exists>enc. utf8_encode spec_message = Inr enc \<and> length enc = 44 \<and> length (frame_bits enc) = 424 \<and>
         capacity (width make_cover) (height make_cover) = 49152 \<and>
         (\<exists>img'. fallback_embed make_cover spec_message = Inr img')"
proof -
  let ?enc = "map of_char ''The quick brown fox jumps over 13 lazy dogs.'' :: byte list"
  have e: "utf8_encode spec_message = Inr ?enc"
    by (simp add: spec_message_def utf8_encode_char_def)
  have cap: "capacity (width make_cover) (height make_cover) = 49152"
    by (simp add: make_cover_def image_new_def capacity_def)
  have "fallback_embed make_cover spec_message =
        Inr (make_cover\<lparr>pixels := embed_loop (pixels make_cover) (row_major (width make_cover) (height make_cover)) (frame_bits ?enc)\<rparr>)"
    by (rule embed_ok [OF e]) (simp_all add: cap)
  with e cap show ?thesis by simp
qed



theorem gui_blank_message_rejected_witness:
  "files (on_encode ((app_init test_store None)\<lparr>cover_path := ''/tmp/pytest-0/test0/cover.png'', message_txt := [32, 9, 10]\<rparr>)) = test_store \<and>
   last_box (on_encode ((app_init test_store None)\<lparr>cover_path := ''/tmp/pytest-0/test0/cover.png'', message_txt := [32, 9, 10]\<rparr>)) =
     Some (ShowError ''Encode failed'' ''Message must not be empty'')"
proof -
  have c: "parse_path ''/tmp/pytest-0/test0/cover.png'' = path_join tmp_path ''cover.png''" by code_simp
  let ?st = "(app_init test_store None)\<lparr>cover_path := ''/tmp/pytest-0/test0/cover.png'', message_txt := [32, 9, 10]\<rparr>"
  have "\<forall>c\<in>set (message_txt ?st). py_isspace c" by (simp add: py_isspace_def)
  from gui_blank_message_rejected [OF this]
  show ?thesis by (simp add: app_init_fields c exists_def test_store_cover)
qed

theorem decode_failure_keeps_display_witness:
  "content (decoded_txt (on_decode ((app_init test_store None)\<lparr>decoded_txt := \<lparr>content = [0x68, 0x69], wstate = Disabled\<rparr>,
      stego_path := ''/tmp/missing.png''\<rparr>))) = [0x68, 0x69] \<and>
   status_var (on_decode ((app_init test_store None)\<lparr>decoded_txt := \<lparr>content = [0x68, 0x69], wstate = Disabled\<rparr>,
      stego_path := ''/tmp/missing.png''\<rparr>)) = ''Decode failed.''"
proof -
  let ?st = "(app_init test_store None)\<lparr>decoded_txt := \<lparr>content = [0x68, 0x69], wstate = Disabled\<rparr>,
      stego_path := ''/tmp/missing.png''\<rparr>"
  have m: "test_store (parse_path ''/tmp/missing.png'') = None" by code_simp
  have d: "decode_message_from_image None test_store (PStr ''/tmp/missing.png'') =
           Inl (SteganographyError (''Image not found: '' @ path_str (parse_path ''/tmp/missing.png'')))"
    by (simp add: decode_message_from_image_def exists_def m)
  have "decode_message_from_image (lsb_conf ?st) (files ?st) (PStr (stego_path ?st)) =
        Inl (SteganographyError (''Image not found: '' @ path_str (parse_path ''/tmp/missing.png'')))"
    by (simp add: app_init_fields d)
  from decode_failure_keeps_display [OF this] this show ?thesis
    by (simp add: on_decode_def app_init_fields)
qed

end
