(* ===== verification/Spec2Isabelle.thy ===== *)
theory Spec2Isabelle
  imports Tests
begin

text \<open>
  A verification development for the Image-Steganography package
  (\<^verbatim>\<open>src/src/image_steganography\<close>): a least-significant-bit codec that hides a
  UTF-8 message in the red, green and blue channels of an RGBA image, with a thin file
  API (\<^verbatim>\<open>core.py\<close>), path helpers (\<^verbatim>\<open>utils.py\<close>) and a Tkinter window
  (\<^verbatim>\<open>main.py\<close>, re-exported by \<^verbatim>\<open>gui.py\<close>).

  \<^bold>\<open>The parts and how they interact.\<close> \<open>encode_message_to_image\<close> checks its
  arguments and calls \<open>_fallback_encode\<close> (when the optional \<^verbatim>\<open>stegano\<close> package
  is missing): the message is encoded as UTF-8, framed as
  \<open>_HEADER + len.to_bytes(4, "big") + body\<close> (the Payload Framer), flattened to bits
  most significant first by \<open>_to_bits\<close> (the Bit Planner), checked against the
  capacity \<open>width * height * 3\<close>, and written into the low bits of the channels in
  row-major order (the Pixel Channel Writer). \<open>decode_message_from_image\<close> calls
  \<open>_fallback_decode\<close>, which reads every low bit back (the Reader), regroups them
  with \<open>_from_bits\<close>, checks the marker, reads the length field and decodes the body.

  \<^bold>\<open>Theories.\<close>
  \<^item> \<open>Prelude\<close>: the byte and string types, \<open>py_error\<close> (the exceptions the code
    raises, \<open>SteganographyError\<close> of \<^verbatim>\<open>core.py\<close> lines 43--44 among them), 0/1 bit
    lists (\<open>binary\<close>), grouping into chunks, and the word lemmas the components share.
  \<^item> \<open>Bits\<close>: \<open>to_bits\<close> is \<open>_to_bits\<close> (lines 97--100); \<open>from_bits_loop\<close> /
    \<open>from_bits\<close> is \<open>_from_bits\<close> (lines 103--111) with its accumulator \<open>b\<close>, the
    counter from \<open>enumerate(bits, start=1)\<close>, the reset after each byte, and the
    \<open>ValueError\<close> of \<open>bytearray.append\<close> on a value outside \<open>range(0, 256)\<close>.
    \<open>from_bits_spec\<close> is the reference of the design (groups of eight, a partial group
    dropped), and the loop refines it on 0/1 input.
  \<^item> \<open>Canvas\<close>: the image as a record of width, height and rows of RGBA pixels (PIL's
    \<open>pixels[x, y]\<close> is \<open>pixels img ! y ! x\<close>); \<open>capacity\<close> (line 121);
    \<open>set_lsb\<close> is \<open>(c & ~1) | bit\<close>; \<open>embed_pixel\<close> / \<open>embed_loop\<close> are the loop
    of lines 125--139, with \<open>StopIteration\<close> in the middle of a pixel writing the
    pixel and stopping; \<open>read_pixel\<close> / \<open>read_loop\<close> are lines 147--151.
  \<^item> \<open>Frame\<close>: \<open>HEADER\<close> (line 94), \<open>int.to_bytes\<close> with its \<open>OverflowError\<close>,
    \<open>int.from_bytes\<close>, \<open>bytes.startswith\<close>, and the frame of line 119.
  \<^item> \<open>Utf8\<close>: \<open>str.encode("utf-8")\<close> and strict \<open>bytes.decode("utf-8")\<close>, modelled
    from the UTF-8 definition as CPython applies it (they are built-ins).
  \<^item> \<open>Codec\<close>: \<open>fallback_embed\<close> is \<open>_fallback_encode\<close> (lines 114--139) and
    \<open>fallback_extract\<close> is \<open>_fallback_decode\<close> (lines 142--166) on an image in memory.
  \<^item> \<open>Paths\<close>: \<open>ensure_png\<close> and \<open>is_lossless_image\<close> of \<^verbatim>\<open>utils.py\<close> over a
    model of \<open>pathlib.PurePosixPath\<close> (\<open>parse_path\<close> is \<open>Path(s)\<close>, \<open>path_str\<close> is
    \<open>str\<close>/\<open>as_posix\<close>, \<open>suffix\<close>, \<open>with_suffix\<close> and \<open>with_name\<close> as in
    CPython 3.12).
  \<^item> \<open>Api\<close>: \<open>encode_message_to_image\<close> (lines 47--69) and
    \<open>decode_message_from_image\<close> (lines 72--87) in both configurations: the module
    variable \<open>lsb\<close> (lines 37--40) is an argument of type
    \<open>lsb_backend option\<close>, \<open>None\<close> when the import failed and otherwise a record of
    the two library calls \<open>hide\<close> and \<open>reveal\<close> the code makes; \<open>backend_encode\<close>
    and \<open>backend_decode\<close> are the dispatch on it. They work over a \<open>store\<close> (a map from paths to image files, other files and
    directories) with \<open>Image.open\<close> and \<open>img.save\<close> and their \<open>OSError\<close>s. The
    encoder returns the store after the call with its result, so what an exception leaves
    behind is part of the model.
  \<^item> \<open>Gui\<close>: the window of \<^verbatim>\<open>main.py\<close> as a state machine: the record \<open>app\<close>
    holds the entry variables, the message text, the decoded text widget (with Tk's rule
    that a disabled widget ignores edits), the status bar, the last message box and the
    store; \<open>gui_step\<close> runs the callback of one user event (\<open>_browse_cover\<close>,
    \<open>_browse_output\<close>, \<open>_browse_stego\<close>, typing, \<open>_on_encode\<close>,
    \<open>_on_decode\<close>), and \<open>reachable\<close> is the inductive set of states a session can
    reach from \<open>app_init\<close>, which is \<open>App.__init__\<close> with \<open>_build_ui\<close>,
    \<open>_build_encode_tab\<close> and \<open>_build_decode_tab\<close> giving each field its first value
    (empty variables, a disabled decoded widget, the status \<open>Ready.\<close>). The window's backend is a field of its state, and
    \<open>backend_wf\<close> is the contract a library must meet for the image lemmas (\<open>hide\<close>
    returns well-formed images); \<open>gui_inv\<close> bundles the invariants proved by induction.
  \<^item> \<open>Tests\<close>: the cover, the file system and the scenarios of
    \<^verbatim>\<open>src/tests/test_core.py\<close>, runs of the window, and the examples of the design,
    evaluated on the model.

  \<^bold>\<open>What the lemmas show.\<close> Bits: \<open>_from_bits\<close> inverts \<open>_to_bits\<close>, refines the
  chunk reference, drops a trailing partial byte, and raises only on non-bit input.
  Canvas: reading after writing returns the written bits followed by the old low bits;
  a write changes a channel by at most one and only its low bit; alpha and every pixel
  after the payload are untouched; the reader yields exactly \<open>capacity\<close> bits. Frame:
  the length field round-trips below \<open>2^32\<close> and overflows exactly above. Utf8: decoding
  an encoding gives the text back; encoding fails exactly on surrogates. Codec: the
  embed/extract round trip under the capacity condition; embedding fails exactly when
  the frame does not fit; an unwritten (even) image decodes to the empty string; a frame
  cut after its header decodes to the body prefix that is present; shape and alpha are
  preserved. Paths: \<open>ensure_png\<close> always yields a \<open>.png\<close> suffix, is idempotent through
  the printed form, fails exactly on a path with no name, and printing a parsed path and
  parsing it again is the identity. Api: the round trip through the store; the encoder
  is all-or-nothing on the store and writes only the \<open>ensure_png\<close> path; an empty
  message is always rejected; decoding raises only \<open>SteganographyError\<close> or
  \<open>OSError\<close>, and raises on an unwritten image. Gui: by rule induction over
  \<open>reachable\<close>, in every state every stored image is well formed, only \<open>.png\<close>
  image files were written, and the decoded widget is read-only; pressing Encode,
  choosing the written file and pressing Decode shows the message; the Save As entry
  always names a \<open>.png\<close> path; from every reachable state with the fallback backend
  there is a sequence of events that shows a given message (liveness). Pressing Encode
  with only whitespace typed always fails and writes nothing, with the text the API's
  check order gives (the cover is checked first); a failed decode leaves the decoded
  widget as it was, so an earlier message stays on screen. The path values
  the code builds are always well formed (a type invariant of \<open>Paths\<close>), and each step
  of the UTF-8 decoder consumes one to four bytes (so its loop ends after at most
  \<open>len(data)\<close> steps). The Api and Gui lemmas on atomicity, the written path, empty
  messages and the read-only widget hold for any backend; the round trips are proved
  for the fallback, whose format is modelled.

  \<^bold>\<open>Bounds and loops.\<close> Every loop of the code is a structural recursion over a list
  (the bits, the pixel positions), so every definition is total; the UTF-8 decoder
  recurses on a shorter byte list (termination by \<open>measure length\<close>). No fuel is used.
  Lengths are \<open>nat\<close>, channel values and bytes are \<open>8 word\<close>, and the accumulator of
  \<open>_from_bits\<close> is an unbounded \<open>int\<close>, as in Python.

  \<^bold>\<open>Not modelled.\<close> The inside of \<^verbatim>\<open>stegano.lsb.hide\<close> and \<open>reveal\<close> (a
  third-party library the code only calls: they are parameters, and their format is not
  the fallback's); PIL's file decoding and PNG encoding (an image file is the grid
  of RGBA values it decodes to, which a PNG round-trips exactly; \<open>convert("RGBA")\<close>
  of other modes is not modelled); relative paths are keys of the store as they are, so
  the current directory is the store's entry for \<open>Path("")\<close>; the geometry and labels of
  \<^verbatim>\<open>main.py\<close> and the dialogs themselves (their answer is an argument of the event);
  \<open>str.lower\<close> beyond ASCII (exact for the comparisons the code makes); the modules
  \<^verbatim>\<open>__init__.py\<close> and \<^verbatim>\<open>gui.py\<close>, which only re-export names.
\<close>

end
